theory Spec2Isabelle
  imports Complex_Main "HOL-Library.Log_Nat"
begin

section \<open>Data model of \<^verbatim>\<open>ciclo_menstrual.py\<close>\<close>

text \<open>
  A Python \<^verbatim>\<open>datetime.date\<close> is modelled by its proleptic Gregorian ordinal (the value of
  \<^verbatim>\<open>date.toordinal()\<close>), an integer from 1 (0001-01-01) to 3652059 (9999-12-31);
  \<^verbatim>\<open>(d - e).days\<close> is \<open>d - e\<close>, and adding a \<^verbatim>\<open>timedelta\<close> raises \<^verbatim>\<open>OverflowError\<close>
  when the result leaves that range (\<open>date_add\<close> below). A Python \<^verbatim>\<open>float\<close> is modelled
  by the rational number it denotes, every operation rounding its exact result to the
  nearest IEEE double, ties to even (\<open>round_double\<close> below), with the infinities as
  separate values where a division can overflow.
\<close>

type_synonym pydate = int

text \<open>One dictionary appended to \<^verbatim>\<open>menstrual_flow_records\<close>, a row of the data frame.\<close>

record observation =
  date :: pydate
  flow_intensity :: string
  raw_date :: string

text \<open>
  The attribute \<^verbatim>\<open>self.periods\<close>: the constructor stores the Python list \<^verbatim>\<open>[]\<close> in it,
  \<^verbatim>\<open>parse_health_data\<close> replaces it by a pandas data frame.
\<close>

datatype periods_attr = PyList | DataFrame "observation list"

text \<open>The dictionaries built by \<^verbatim>\<open>identify_periods\<close>; the key \<^verbatim>\<open>'end'\<close> is the field \<open>end'\<close>.\<close>

record period =
  start :: pydate
  end' :: pydate
  duration :: nat

text \<open>The dictionaries built by \<^verbatim>\<open>calculate_cycle_phases\<close>.\<close>

record cycle_phase =
  cycle_number :: nat
  period_start :: pydate
  period_end :: pydate
  period_duration :: nat
  cycle_length :: int
  ovulation_date :: pydate
  fertile_window_start :: pydate
  fertile_window_end :: pydate
  pms_alert_date :: pydate
  next_period_date :: pydate

text \<open>The object state of \<^verbatim>\<open>MenstrualCycleProcessor\<close>.\<close>

record processor =
  periods :: periods_attr
  cycle_data :: "cycle_phase list"

datatype py_error = AttributeError | ZeroDivisionError | ValueError | OverflowError

text \<open>
  A calendar event. The random \<^verbatim>\<open>uid\<close> and the display texts (\<^verbatim>\<open>summary\<close>,
  \<^verbatim>\<open>description\<close>) are left out; the category tag, the start date and the optional
  exclusive end date are kept.
\<close>

datatype category =
  MENSTRUATION | OVULATION | FERTILITY | PMS_ALERT
  | MENSTRUATION_PREDICTED | OVULATION_PREDICTED | PMS_ALERT_PREDICTED

record event =
  categories :: category
  dtstart :: pydate
  dtend :: "pydate option"

text \<open>What \<^verbatim>\<open>print_summary\<close> prints: the "no data" line, or the statistics.\<close>

datatype summary =
  NoData
  | Summary (total_cycles: nat) (avg_cycle: rat) (avg_period: rat)
      (last_period_start: pydate) (next_predicted: pydate)

section \<open>The processor\<close>

definition init :: processor where
  "init = \<lparr>periods = PyList, cycle_data = []\<rparr>"

text \<open>
  \<^verbatim>\<open>parse_health_data\<close>, from the point where the flow records have been read out of the
  XML document: the argument is \<^verbatim>\<open>menstrual_flow_records\<close>. The data frame is stored in
  \<^verbatim>\<open>self.periods\<close> only when it is not empty. The sort of pandas need not keep rows
  of equal date in their order, as \<open>sort_key\<close> does; \<^verbatim>\<open>identify_periods\<close> reads the dates
  only and sorts them again, so the order of such rows is never observed.
\<close>

definition parse_health_data :: "processor \<Rightarrow> observation list \<Rightarrow> observation list \<times> processor" where
  "parse_health_data self menstrual_flow_records =
     (let df = menstrual_flow_records in
      if df \<noteq> [] then (menstrual_flow_records, self\<lparr>periods := DataFrame (sort_key date df)\<rparr>)
      else (menstrual_flow_records, self))"

text \<open>The dictionary appended to \<^verbatim>\<open>periods\<close> when a run of dates is closed.\<close>

definition close_period :: "pydate list \<Rightarrow> period" where
  "close_period current_period =
     \<lparr>start = Min (set current_period), end' = Max (set current_period),
      duration = length current_period\<rparr>"

text \<open>
  The \<^verbatim>\<open>for i, date in enumerate(sorted_dates)\<close> loop. The first argument is
  \<^verbatim>\<open>sorted_dates.iloc[i-1]\<close>, absent at \<open>i = 0\<close>; the result is the pair
  \<^verbatim>\<open>(periods, current_period)\<close> at the end of the loop.
\<close>

fun walk :: "pydate option \<Rightarrow> pydate list \<Rightarrow> period list \<Rightarrow> pydate list \<Rightarrow> period list \<times> pydate list" where
  "walk prev [] periods' current_period = (periods', current_period)"
| "walk None (d # ds) periods' current_period = walk (Some d) ds periods' [d]"
| "walk (Some prev_date) (d # ds) periods' current_period =
     (if d - prev_date > 2
      then walk (Some d) ds
             (if current_period \<noteq> [] then periods' @ [close_period current_period] else periods') [d]
      else walk (Some d) ds periods' (current_period @ [d]))"

definition identify_periods :: "processor \<Rightarrow> py_error + period list" where
  "identify_periods self =
     (case periods self of
        PyList \<Rightarrow> Inl AttributeError
      | DataFrame df \<Rightarrow>
          if df = [] then Inr []
          else
            (let sorted_dates = sort (map date df);
                 (periods', current_period) = walk None sorted_dates [] []
             in Inr (if current_period \<noteq> [] then periods' @ [close_period current_period]
                     else periods')))"

section \<open>Dates and floats of Python\<close>

definition date_min :: pydate where
  "date_min = 1"

definition date_max :: pydate where
  "date_max = 3652059"

text \<open>
  \<^verbatim>\<open>d + timedelta(days=k)\<close>: \<^verbatim>\<open>timedelta\<close> refuses more than 999999999 days, and the sum
  must be a date; both failures are \<^verbatim>\<open>OverflowError\<close>. \<^verbatim>\<open>d - timedelta(days=k)\<close> is
  \<open>date_add d (- k)\<close>.
\<close>

definition date_add :: "pydate \<Rightarrow> int \<Rightarrow> py_error + pydate" where
  "date_add d days =
     (if \<bar>days\<bar> \<le> 999999999 \<and> date_min \<le> d + days \<and> d + days \<le> date_max
      then Inr (d + days) else Inl OverflowError)"

text \<open>An exception raised by the first computation is raised by the whole.\<close>

definition bind_err :: "py_error + 'a \<Rightarrow> ('a \<Rightarrow> py_error + 'b) \<Rightarrow> py_error + 'b" where
  "bind_err r f = (case r of Inl e \<Rightarrow> Inl e | Inr v \<Rightarrow> f v)"

text \<open>Rounding to the nearest integer, a tie going to the even one.\<close>

definition round_half_even :: "rat \<Rightarrow> int" where
  "round_half_even y =
     (let f = \<lfloor>y\<rfloor>; d = y - of_int f
      in if d < 1 / 2 then f else if 1 / 2 < d then f + 1 else if even f then f else f + 1)"

text \<open>The integer \<open>k\<close> with \<open>2 ^ k \<le> \<bar>x\<bar> < 2 ^ (k + 1)\<close>, for \<open>x \<noteq> 0\<close>.\<close>

definition ilog2 :: "rat \<Rightarrow> int" where
  "ilog2 x =
     (let (p, q) = quotient_of \<bar>x\<bar>; k = bitlen p - bitlen q
      in if 2 powi k \<le> \<bar>x\<bar> then k else k - 1)"

text \<open>
  The IEEE double nearest to \<open>x\<close>, the exponent range unbounded above: 53 significant
  bits, and multiples of \<open>2 ^ - 1074\<close> below \<open>2 ^ - 1022\<close>. \<open>double_max\<close> is the largest
  double; a rounded value beyond it is an overflow.
\<close>

definition round_double :: "rat \<Rightarrow> rat" where
  "round_double x =
     (if x = 0 then 0
      else (let e = max (ilog2 x - 52) (- 1074)
            in of_int (round_half_even (x / 2 powi e)) * 2 powi e))"

definition double_max :: rat where
  "double_max = (2 ^ 53 - 1) * 2 ^ 971"

text \<open>
  \<^verbatim>\<open>a / b\<close> on two Python integers: the correctly rounded quotient, \<^verbatim>\<open>ZeroDivisionError\<close>
  for a zero divisor, \<^verbatim>\<open>OverflowError\<close> when the quotient is too large for a float.
\<close>

definition int_true_div :: "int \<Rightarrow> int \<Rightarrow> py_error + rat" where
  "int_true_div a b =
     (if b = 0 then Inl ZeroDivisionError
      else (let r = round_double (of_int a / of_int b)
            in if double_max < \<bar>r\<bar> then Inl OverflowError else Inr r))"

text \<open>The conversion of a Python integer to a float, as a mixed operation does it.\<close>

definition float_of_int :: "int \<Rightarrow> py_error + rat" where
  "float_of_int n =
     (let r = round_double (of_int n)
      in if double_max < \<bar>r\<bar> then Inl OverflowError else Inr r)"

text \<open>
  \<^verbatim>\<open>a / b\<close> on two finite floats: \<^verbatim>\<open>ZeroDivisionError\<close> for a zero divisor, otherwise the
  IEEE quotient, an infinity when it overflows.
\<close>

datatype pyfloat = Float rat | PosInf | NegInf

definition float_div :: "rat \<Rightarrow> rat \<Rightarrow> py_error + pyfloat" where
  "float_div a b =
     (if b = 0 then Inl ZeroDivisionError
      else (let r = round_double (a / b)
            in if double_max < r then Inr PosInf
               else if r < - double_max then Inr NegInf
               else Inr (Float r)))"

text \<open>\<^verbatim>\<open>n < q\<close> for a Python integer \<open>n \<ge> 0\<close> and a float \<open>q\<close>: an exact comparison.\<close>

definition int_less_float :: "nat \<Rightarrow> pyfloat \<Rightarrow> bool" where
  "int_less_float n q = (case q of Float r \<Rightarrow> of_nat n < r | PosInf \<Rightarrow> True | NegInf \<Rightarrow> False)"

text \<open>Python's \<^verbatim>\<open>int(x)\<close> on a finite float: truncation towards zero.\<close>

definition py_int :: "rat \<Rightarrow> int" where
  "py_int x = (if 0 \<le> x then \<lfloor>x\<rfloor> else \<lceil>x\<rceil>)"

section \<open>Cycle phases\<close>

text \<open>
  The body of the loop of \<^verbatim>\<open>calculate_cycle_phases\<close> at index \<open>i\<close>. A primed name is the
  local variable of that name in the source, where the unprimed one is a field.
\<close>

definition phase_at :: "period list \<Rightarrow> nat \<Rightarrow> py_error + cycle_phase" where
  "phase_at periods' i =
     (let current_period = periods' ! i;
          next_period = periods' ! (i + 1);
          cycle_length' = start next_period - start current_period
      in bind_err (date_add (start next_period) (- 14)) (\<lambda>ovulation_date'.
         bind_err (date_add ovulation_date' (- 5)) (\<lambda>fertile_window_start'.
         bind_err (date_add ovulation_date' 1) (\<lambda>fertile_window_end'.
         bind_err (date_add (start next_period) (- 7)) (\<lambda>pms_alert_start.
         Inr \<lparr>cycle_number = i + 1,
              period_start = start current_period,
              period_end = end' current_period,
              period_duration = duration current_period,
              cycle_length = cycle_length',
              ovulation_date = ovulation_date',
              fertile_window_start = fertile_window_start',
              fertile_window_end = fertile_window_end',
              pms_alert_date = pms_alert_start,
              next_period_date = start next_period\<rparr>)))))"

text \<open>
  \<^verbatim>\<open>for i in range(len(periods) - 1)\<close> over the indices still to visit, with the list
  \<^verbatim>\<open>cycle_phases\<close> built so far; an exception in the body ends the loop.
\<close>

fun phases_loop :: "period list \<Rightarrow> nat list \<Rightarrow> cycle_phase list \<Rightarrow> py_error + cycle_phase list" where
  "phases_loop periods' [] cycle_phases = Inr cycle_phases"
| "phases_loop periods' (i # indices) cycle_phases =
     bind_err (phase_at periods' i) (\<lambda>c. phases_loop periods' indices (cycle_phases @ [c]))"

text \<open>
  \<^verbatim>\<open>calculate_cycle_phases\<close>. The range is empty when \<^verbatim>\<open>periods\<close> is empty, as
  \<open>[0..<0 - 1]\<close> is. The result is the returned list and the processor with
  \<^verbatim>\<open>self.cycle_data\<close> set to it.
\<close>

definition calculate_cycle_phases ::
  "processor \<Rightarrow> period list \<Rightarrow> py_error + cycle_phase list \<times> processor" where
  "calculate_cycle_phases self periods' =
     bind_err (phases_loop periods' [0..<length periods' - 1] [])
       (\<lambda>cycle_phases. Inr (cycle_phases, self\<lparr>cycle_data := cycle_phases\<rparr>))"

section \<open>Calendar and summary\<close>

text \<open>
  The mean \<^verbatim>\<open>sum(c['cycle_length'] for c in cycle_phases) / len(cycle_phases)\<close>, which
  both \<^verbatim>\<open>generate_ical_calendar\<close> and \<^verbatim>\<open>print_summary\<close> compute: a float.
\<close>

definition avg_cycle_length :: "cycle_phase list \<Rightarrow> py_error + rat" where
  "avg_cycle_length cycle_phases =
     int_true_div (sum_list (map cycle_length cycle_phases)) (int (length cycle_phases))"

text \<open>
  Python's \<^verbatim>\<open>max(xs, key=...)\<close> on the key \<^verbatim>\<open>period_start\<close>: the first element whose
  key is maximal; \<^verbatim>\<open>ValueError\<close> on an empty list.
\<close>

fun max_period_start :: "cycle_phase list \<Rightarrow> py_error + cycle_phase" where
  "max_period_start [] = Inl ValueError"
| "max_period_start (c # cs) =
     Inr (foldl (\<lambda>best x. if period_start x > period_start best then x else best) c cs)"

text \<open>The four events added for one historical cycle.\<close>

definition historical_events :: "cycle_phase \<Rightarrow> py_error + event list" where
  "historical_events cycle =
     bind_err (date_add (period_end cycle) 1) (\<lambda>period_dtend.
     bind_err (date_add (fertile_window_end cycle) 1) (\<lambda>fertile_dtend.
     Inr [\<lparr>categories = MENSTRUATION, dtstart = period_start cycle,
           dtend = Some period_dtend\<rparr>,
          \<lparr>categories = OVULATION, dtstart = ovulation_date cycle, dtend = None\<rparr>,
          \<lparr>categories = FERTILITY, dtstart = fertile_window_start cycle,
           dtend = Some fertile_dtend\<rparr>,
          \<lparr>categories = PMS_ALERT, dtstart = pms_alert_date cycle, dtend = None\<rparr>]))"

text \<open>\<^verbatim>\<open>for cycle in cycle_phases\<close>, with the components added to the calendar so far.\<close>

fun historical_loop :: "cycle_phase list \<Rightarrow> event list \<Rightarrow> py_error + event list" where
  "historical_loop [] cal = Inr cal"
| "historical_loop (cycle # cycles) cal =
     bind_err (historical_events cycle) (\<lambda>events. historical_loop cycles (cal @ events))"

text \<open>
  One pass through the body of the \<^verbatim>\<open>while\<close> loop: the events added, and the new value
  of \<^verbatim>\<open>current_date\<close>. \<open>today\<close> is \<^verbatim>\<open>datetime.now().date()\<close>, taken as constant during
  the call.
\<close>

definition future_pass ::
  "cycle_phase \<Rightarrow> pydate \<Rightarrow> rat \<Rightarrow> pydate \<Rightarrow> py_error + event list \<times> pydate" where
  "future_pass last_period today avg_cycle_length' current_date =
     (let period_start' = current_date
      in bind_err (date_add current_date (int (period_duration last_period))) (\<lambda>period_end'.
         bind_err (date_add period_end' 1) (\<lambda>period_dtend.
         bind_err (date_add period_start' (- 14)) (\<lambda>ovulation_future.
         bind_err (date_add period_start' (- 7)) (\<lambda>pms_future.
         bind_err (date_add current_date (py_int avg_cycle_length')) (\<lambda>next_date.
         Inr ([\<lparr>categories = MENSTRUATION_PREDICTED, dtstart = period_start',
                 dtend = Some period_dtend\<rparr>]
              @ (if ovulation_future > today
                 then [\<lparr>categories = OVULATION_PREDICTED, dtstart = ovulation_future,
                         dtend = None\<rparr>]
                 else [])
              @ (if pms_future > today
                 then [\<lparr>categories = PMS_ALERT_PREDICTED, dtstart = pms_future, dtend = None\<rparr>]
                 else []),
              next_date)))))))"

text \<open>
  The float \<^verbatim>\<open>months_future * 30 / avg_cycle_length\<close>: the integer product is converted
  to a float, then divided.
\<close>

definition loop_bound :: "int \<Rightarrow> rat \<Rightarrow> py_error + pyfloat" where
  "loop_bound months_future avg_cycle_length' =
     bind_err (float_of_int (months_future * 30)) (\<lambda>m. float_div m avg_cycle_length')"

text \<open>
  The loop \<^verbatim>\<open>while future_cycles < months_future * 30 / avg_cycle_length\<close>. The result is
  \<open>None\<close> when the loop does not end.
\<close>

partial_function (option) future_loop ::
  "int \<Rightarrow> rat \<Rightarrow> cycle_phase \<Rightarrow> pydate \<Rightarrow> pydate \<Rightarrow> nat \<Rightarrow> event list
     \<Rightarrow> (py_error + event list) option" where
  "future_loop months_future avg_cycle_length' last_period today current_date future_cycles cal =
     (case loop_bound months_future avg_cycle_length' of
        Inl e \<Rightarrow> Some (Inl e)
      | Inr q \<Rightarrow>
          if int_less_float future_cycles q
          then (case future_pass last_period today avg_cycle_length' current_date of
                  Inl e \<Rightarrow> Some (Inl e)
                | Inr (events, next_date) \<Rightarrow>
                    future_loop months_future avg_cycle_length' last_period today next_date
                      (future_cycles + 1) (cal @ events))
          else Some (Inr cal))"

text \<open>
  \<^verbatim>\<open>generate_ical_calendar\<close>: the components added to the calendar, in order, or the
  exception raised.
\<close>

definition generate_ical_calendar ::
  "cycle_phase list \<Rightarrow> int \<Rightarrow> pydate \<Rightarrow> (py_error + event list) option" where
  "generate_ical_calendar cycle_phases months_future today =
     (case historical_loop cycle_phases [] of
        Inl e \<Rightarrow> Some (Inl e)
      | Inr cal \<Rightarrow>
          if cycle_phases \<noteq> [] then
            (case avg_cycle_length cycle_phases of
               Inl e \<Rightarrow> Some (Inl e)
             | Inr avg_cycle_length' \<Rightarrow>
                 (case max_period_start cycle_phases of
                    Inl e \<Rightarrow> Some (Inl e)
                  | Inr last_period \<Rightarrow>
                      future_loop months_future avg_cycle_length' last_period today
                        (next_period_date last_period) 0 cal))
          else Some (Inr cal))"

text \<open>\<^verbatim>\<open>print_summary\<close>: what is printed, as a value.\<close>

definition print_summary :: "processor \<Rightarrow> py_error + summary" where
  "print_summary self =
     (if cycle_data self = [] then Inr NoData
      else
        bind_err (avg_cycle_length (cycle_data self)) (\<lambda>avg_cycle'.
        bind_err (int_true_div (int (sum_list (map period_duration (cycle_data self))))
                    (int (length (cycle_data self)))) (\<lambda>avg_period'.
        bind_err (max_period_start (cycle_data self)) (\<lambda>last_period.
        bind_err (date_add (next_period_date last_period) (py_int avg_cycle')) (\<lambda>next_predicted'.
        Inr (Summary (length (cycle_data self)) avg_cycle' avg_period'
               (period_start last_period) next_predicted'))))))"

text \<open>The predicted period events of a calendar.\<close>

definition predicted_periods :: "event list \<Rightarrow> event list" where
  "predicted_periods cal = filter (\<lambda>e. categories e = MENSTRUATION_PREDICTED) cal"

text \<open>The predicted period events of a call's result; none when the call did not return.\<close>

definition forecast :: "(py_error + event list) option \<Rightarrow> event list" where
  "forecast r = (case r of Some (Inr cal) \<Rightarrow> predicted_periods cal | _ \<Rightarrow> [])"

section \<open>Auxiliary notions and example data\<close>

text \<open>
  Used in the proofs about \<open>walk\<close> only: the runs of dates that the loop closes one after
  the other, each starting more than two days after the end of the one before.
\<close>

fun gaps :: "pydate list list \<Rightarrow> bool" where
  "gaps (r # s # rs) = (last r + 2 < hd s \<and> gaps (s # rs))"
| "gaps rs = True"

text \<open>A flow record on the day with ordinal \<open>d\<close>.\<close>

definition flow_record :: "pydate \<Rightarrow> observation" where
  "flow_record d =
     \<lparr>date = d, flow_intensity = ''HKCategoryValueMenstrualFlowMedium'', raw_date = []\<rparr>"

text \<open>
  The scenario of the specification: observations on 2024-01-01 .. 2024-01-04 (ordinals
  738886 .. 738889) and on 2024-01-29 .. 2024-02-01 (738914 .. 738917), in the order of
  the export.
\<close>

definition scenario_records :: "observation list" where
  "scenario_records =
     map flow_record [738886, 738887, 738888, 738889, 738914, 738915, 738916, 738917]"

definition scenario :: processor where
  "scenario = snd (parse_health_data init scenario_records)"

definition scenario_periods :: "period list" where
  "scenario_periods =
     [\<lparr>start = 738886, end' = 738889, duration = 4\<rparr>,
      \<lparr>start = 738914, end' = 738917, duration = 4\<rparr>]"

text \<open>A period with a skipped day, and a day with two flow records.\<close>

definition skipped_day :: processor where
  "skipped_day = \<lparr>periods = DataFrame [flow_record 738886, flow_record 738888], cycle_data = []\<rparr>"

definition repeated_day :: processor where
  "repeated_day = \<lparr>periods = DataFrame [flow_record 738955, flow_record 738955], cycle_data = []\<rparr>"

text \<open>
  The number of passes of a loop \<^verbatim>\<open>while n < q\<close> that counts \<open>n\<close> up from 0, for a float
  \<open>q\<close> below infinity: the ceiling of \<open>q\<close>, or none.
\<close>

fun passes :: "pyfloat \<Rightarrow> nat" where
  "passes (Float r) = nat \<lceil>r\<rceil>"
| "passes PosInf = 0"
| "passes NegInf = 0"

text \<open>
  The predicted period event that one pass of the \<^verbatim>\<open>while\<close> loop adds for the anchor
  date \<open>d\<close>.
\<close>

definition predicted_event :: "cycle_phase \<Rightarrow> pydate \<Rightarrow> event" where
  "predicted_event last_period d =
     \<lparr>categories = MENSTRUATION_PREDICTED, dtstart = d,
      dtend = Some (d + int (period_duration last_period) + 1)\<rparr>"

text \<open>
  A pass of the \<^verbatim>\<open>while\<close> loop at the anchor date \<open>d\<close> stays within the dates of Python:
  the ovulation date 14 days before it, the end of the event and the next anchor.
\<close>

definition pass_in_range :: "cycle_phase \<Rightarrow> rat \<Rightarrow> pydate \<Rightarrow> bool" where
  "pass_in_range last_period avg d \<longleftrightarrow>
     15 \<le> d \<and> d + int (period_duration last_period) + 1 \<le> date_max
     \<and> \<bar>py_int avg\<bar> \<le> 999999999
     \<and> date_min \<le> d + py_int avg \<and> d + py_int avg \<le> date_max"

text \<open>The end dates of the events of a historical cycle are dates of Python.\<close>

definition historical_in_range :: "cycle_phase \<Rightarrow> bool" where
  "historical_in_range c \<longleftrightarrow>
     date_min \<le> period_end c + 1 \<and> period_end c + 1 \<le> date_max
     \<and> date_min \<le> fertile_window_end c + 1 \<and> fertile_window_end c + 1 \<le> date_max"

text \<open>The list a call of \<^verbatim>\<open>calculate_cycle_phases\<close> returned; empty when it raised.\<close>

definition phases_of :: "py_error + cycle_phase list \<times> processor \<Rightarrow> cycle_phase list" where
  "phases_of r = (case r of Inl e \<Rightarrow> [] | Inr (cycle_phases, self) \<Rightarrow> cycle_phases)"

text \<open>The cycle phases of the scenario: one cycle of 28 days.\<close>

definition scenario_phases :: "cycle_phase list" where
  "scenario_phases = phases_of (calculate_cycle_phases init scenario_periods)"

text \<open>Four periods whose starts are 29, 30 and 30 days apart: a mean cycle of 89/3 days.\<close>

definition drift_periods :: "period list" where
  "drift_periods =
     [\<lparr>start = 738886, end' = 738889, duration = 4\<rparr>,
      \<lparr>start = 738915, end' = 738918, duration = 4\<rparr>,
      \<lparr>start = 738945, end' = 738948, duration = 4\<rparr>,
      \<lparr>start = 738975, end' = 738978, duration = 4\<rparr>]"

definition drift_phases :: "cycle_phase list" where
  "drift_phases = phases_of (calculate_cycle_phases init drift_periods)"

text \<open>Two period records with the same start date: a cycle of length zero.\<close>

definition stalled_phases :: "cycle_phase list" where
  "stalled_phases =
     phases_of (calculate_cycle_phases init [hd scenario_periods, hd scenario_periods])"

text \<open>
  Eight days with a flow record, 21, 21, 21, 21, 22, 22 and 22 days apart: seven cycles
  of 150 days together.
\<close>

definition rounding_records :: "observation list" where
  "rounding_records =
     map flow_record [738886, 738907, 738928, 738949, 738970, 738992, 739014, 739036]"

definition rounding_periods :: "period list" where
  "rounding_periods =
     map (\<lambda>d. \<lparr>start = d, end' = d, duration = 1\<rparr>)
       [738886, 738907, 738928, 738949, 738970, 738992, 739014, 739036]"

definition rounding_phases :: "cycle_phase list" where
  "rounding_phases = phases_of (calculate_cycle_phases init rounding_periods)"

section \<open>Lemmas on dates, floats and exceptions\<close>

lemma bind_err_Inl [simp]: "bind_err (Inl e) f = Inl e"
  by (simp add: bind_err_def)

lemma bind_err_Inr [simp]: "bind_err (Inr v) f = f v"
  by (simp add: bind_err_def)

lemma bind_err_eq_Inr: "bind_err r f = Inr y \<longleftrightarrow> (\<exists>v. r = Inr v \<and> f v = Inr y)"
  by (cases r) simp_all

lemma bind_err_eq_Inl:
  "bind_err r f = Inl e \<longleftrightarrow> r = Inl e \<or> (\<exists>v. r = Inr v \<and> f v = Inl e)"
  by (cases r) simp_all

lemma date_add_eq_Inr:
  "date_add d k = Inr d' \<longleftrightarrow>
     \<bar>k\<bar> \<le> 999999999 \<and> date_min \<le> d + k \<and> d + k \<le> date_max \<and> d' = d + k"
  by (auto simp: date_add_def)

lemma date_add_eq_Inl: "date_add d k = Inl e \<Longrightarrow> e = OverflowError"
  by (auto simp: date_add_def split: if_splits)


lemma round_half_even_error: "\<bar>of_int (round_half_even y) - y\<bar> \<le> 1 / 2"
proof -
  have "of_int \<lfloor>y\<rfloor> \<le> y" "y < of_int \<lfloor>y\<rfloor> + 1"
    by linarith+
  then show ?thesis
    by (auto simp: round_half_even_def Let_def)
qed

lemma ilog2_bounds:
  assumes "x \<noteq> 0"
  shows "2 powi ilog2 x \<le> \<bar>x\<bar>" and "\<bar>x\<bar> < 2 powi (ilog2 x + 1)"
proof -
  obtain p q where pq: "quotient_of \<bar>x\<bar> = (p, q)"
    by (cases "quotient_of \<bar>x\<bar>")
  have q: "0 < q"
    using pq by (rule quotient_of_denom_pos)
  have x: "\<bar>x\<bar> = of_int p / of_int q"
    using pq by (rule quotient_of_div)
  have p: "0 < p"
  proof -
    have "0 < \<bar>x\<bar>" using assms by simp
    then have "0 < (of_int p :: rat) / of_int q" using x by simp
    then show ?thesis using q by (simp add: zero_less_divide_iff)
  qed
  let ?k = "bitlen p - bitlen q"
  have bp: "2 ^ nat (bitlen p - 1) \<le> p" "p < 2 ^ nat (bitlen p)"
    using bitlen_bounds [OF p] by simp_all
  have bq: "2 ^ nat (bitlen q - 1) \<le> q" "q < 2 ^ nat (bitlen q)"
    using bitlen_bounds [OF q] by simp_all
  have bp1: "1 \<le> bitlen p" using p by (simp add: bitlen_alt_def)
  have bq1: "1 \<le> bitlen q" using q by (simp add: bitlen_alt_def)
  have plo: "(2 :: rat) powi (bitlen p - 1) \<le> of_int p"
  proof -
    have "(of_int (2 ^ nat (bitlen p - 1)) :: rat) \<le> of_int p"
      using bp(1) by (simp only: of_int_le_iff)
    then show ?thesis using bp1 by (simp add: power_int_nonneg_exp)
  qed
  have phi: "(of_int p :: rat) < 2 powi bitlen p"
  proof -
    have "(of_int p :: rat) < of_int (2 ^ nat (bitlen p))"
      using bp(2) by (simp only: of_int_less_iff)
    then show ?thesis using bp1 by (simp add: power_int_nonneg_exp)
  qed
  have qlo: "(2 :: rat) powi (bitlen q - 1) \<le> of_int q"
  proof -
    have "(of_int (2 ^ nat (bitlen q - 1)) :: rat) \<le> of_int q"
      using bq(1) by (simp only: of_int_le_iff)
    then show ?thesis using bq1 by (simp add: power_int_nonneg_exp)
  qed
  have qhi: "(of_int q :: rat) < 2 powi bitlen q"
  proof -
    have "(of_int q :: rat) < of_int (2 ^ nat (bitlen q))"
      using bq(2) by (simp only: of_int_less_iff)
    then show ?thesis using bq1 by (simp add: power_int_nonneg_exp)
  qed
  have qpos: "(0 :: rat) < of_int q" using q by simp
  have lower: "(2 :: rat) powi (?k - 1) \<le> \<bar>x\<bar>"
  proof -
    have "(2 :: rat) powi (?k - 1) * of_int q \<le> 2 powi (?k - 1) * 2 powi bitlen q"
      using qhi by (intro mult_left_mono) simp_all
    also have "\<dots> = 2 powi (bitlen p - 1)"
      by (simp add: power_int_add [symmetric])
    also have "\<dots> \<le> of_int p" by (rule plo)
    finally show ?thesis using qpos by (simp add: x pos_le_divide_eq)
  qed
  have upper: "\<bar>x\<bar> < (2 :: rat) powi (?k + 1)"
  proof -
    have "(of_int p :: rat) < 2 powi bitlen p" by (rule phi)
    also have "\<dots> = 2 powi (?k + 1) * 2 powi (bitlen q - 1)"
      by (simp add: power_int_add [symmetric])
    also have "\<dots> \<le> 2 powi (?k + 1) * of_int q"
      using qlo by (intro mult_left_mono) simp_all
    finally show ?thesis using qpos by (simp add: x pos_divide_less_eq)
  qed
  have i: "ilog2 x = (if 2 powi ?k \<le> \<bar>x\<bar> then ?k else ?k - 1)"
    using pq by (simp add: ilog2_def)
  show "2 powi ilog2 x \<le> \<bar>x\<bar>"
    using lower by (simp add: i)
  show "\<bar>x\<bar> < 2 powi (ilog2 x + 1)"
    using upper by (auto simp: i not_le)
qed

lemma ilog2_nonneg:
  assumes "1 \<le> \<bar>x\<bar>"
  shows "0 \<le> ilog2 x"
proof (rule ccontr)
  assume "\<not> 0 \<le> ilog2 x"
  then have "ilog2 x + 1 \<le> 0" by simp
  then have "(2 :: rat) powi (ilog2 x + 1) \<le> 2 powi 0"
    by (intro power_int_increasing) simp_all
  moreover have "\<bar>x\<bar> < 2 powi (ilog2 x + 1)"
    using assms by (intro ilog2_bounds) auto
  ultimately show False using assms by simp
qed

lemma round_double_error:
  assumes "1 \<le> \<bar>x\<bar>"
  shows "\<bar>round_double x - x\<bar> \<le> \<bar>x\<bar> / 2 ^ 53"
proof -
  have nz: "x \<noteq> 0" using assms by auto
  define s :: rat where "s = 2 powi (ilog2 x - 52)"
  have s: "0 < s" by (simp add: s_def)
  have e: "max (ilog2 x - 52) (- 1074) = ilog2 x - 52"
    using ilog2_nonneg [OF assms] by simp
  have rd: "round_double x = of_int (round_half_even (x / s)) * s"
    using nz by (simp add: round_double_def e s_def Let_def)
  have "\<bar>round_double x - x\<bar> = \<bar>of_int (round_half_even (x / s)) - x / s\<bar> * s"
  proof -
    have "round_double x - x = (of_int (round_half_even (x / s)) - x / s) * s"
      using s by (simp add: rd field_simps)
    then show ?thesis using s by (simp add: abs_mult)
  qed
  also have "\<dots> \<le> (1 / 2) * s"
    using s round_half_even_error [of "x / s"] by (intro mult_right_mono) simp_all
  also have "\<dots> = 2 powi ilog2 x / 2 ^ 53"
    by (simp add: s_def power_int_diff)
  also have "\<dots> \<le> \<bar>x\<bar> / 2 ^ 53"
    using ilog2_bounds(1) [OF nz] by (simp add: divide_right_mono)
  finally show ?thesis .
qed

lemma round_double_pos:
  assumes "1 \<le> x"
  shows "0 < round_double x"
proof -
  have "\<bar>round_double x - x\<bar> \<le> \<bar>x\<bar> / 2 ^ 53"
    using assms by (intro round_double_error) simp
  then have "x - round_double x \<le> x / 2 ^ 53"
    using assms by (simp only: abs_le_iff) simp
  then have "x - x / 2 ^ 53 \<le> round_double x"
    by simp
  moreover have "0 < x - x / 2 ^ 53"
    using assms by (simp add: field_simps)
  ultimately show ?thesis by simp
qed

lemma round_double_zero [simp]: "round_double 0 = 0"
  by (simp add: round_double_def)

text \<open>Rules to evaluate the rounding at a given number.\<close>

lemma round_half_even_eqI:
  assumes "of_int n - 1 / 2 < y" "y < of_int n + 1 / 2"
  shows "round_half_even y = n"
proof -
  have f: "of_int \<lfloor>y\<rfloor> \<le> y" "y < of_int \<lfloor>y\<rfloor> + 1"
    by linarith+
  have "\<lfloor>y\<rfloor> = n \<or> \<lfloor>y\<rfloor> = n - 1"
  proof -
    have "of_int \<lfloor>y\<rfloor> < (of_int n :: rat) + 1" using f(1) assms(2) by linarith
    then have "\<lfloor>y\<rfloor> < n + 1" by (metis of_int_1 of_int_add of_int_less_iff)
    moreover have "(of_int n :: rat) - 2 < of_int \<lfloor>y\<rfloor>" using f(2) assms(1) by linarith
    then have "n - 2 < \<lfloor>y\<rfloor>" by (metis of_int_diff of_int_less_iff of_int_numeral)
    ultimately show ?thesis by linarith
  qed
  then show ?thesis
  proof
    assume "\<lfloor>y\<rfloor> = n"
    then show ?thesis using assms(2) by (simp add: round_half_even_def Let_def)
  next
    assume "\<lfloor>y\<rfloor> = n - 1"
    then show ?thesis using assms(1) by (simp add: round_half_even_def Let_def)
  qed
qed

lemma ilog2_eqI:
  assumes "2 powi k \<le> \<bar>x\<bar>" "\<bar>x\<bar> < 2 powi (k + 1)"
  shows "ilog2 x = k"
proof -
  have "(0 :: rat) < 2 powi k" by simp
  then have "0 < \<bar>x\<bar>" using assms(1) by (rule less_le_trans)
  then have nz: "x \<noteq> 0" by simp
  note b = ilog2_bounds [OF nz]
  have "\<not> ilog2 x < k"
  proof
    assume "ilog2 x < k"
    then have "(2 :: rat) powi (ilog2 x + 1) \<le> 2 powi k"
      by (intro power_int_increasing) simp_all
    then show False using b(2) assms(1) by simp
  qed
  moreover have "\<not> k < ilog2 x"
  proof
    assume "k < ilog2 x"
    then have "(2 :: rat) powi (k + 1) \<le> 2 powi ilog2 x"
      by (intro power_int_increasing) simp_all
    then show False using b(1) assms(2) by simp
  qed
  ultimately show ?thesis by simp
qed

lemma round_double_eqI:
  assumes "2 powi k \<le> \<bar>x\<bar>" "\<bar>x\<bar> < 2 powi (k + 1)" "- 1022 \<le> k"
    "of_int n - 1 / 2 < x / 2 powi (k - 52)" "x / 2 powi (k - 52) < of_int n + 1 / 2"
  shows "round_double x = of_int n * 2 powi (k - 52)"
proof -
  have "(0 :: rat) < 2 powi k" by simp
  then have "0 < \<bar>x\<bar>" using assms(1) by (rule less_le_trans)
  then have nz: "x \<noteq> 0" by simp
  have i: "ilog2 x = k" using assms(1,2) by (rule ilog2_eqI)
  have e: "max (k - 52) (- 1074) = k - 52" using assms(3) by simp
  have "round_half_even (x / 2 powi (k - 52)) = n"
    using assms(4,5) by (rule round_half_even_eqI)
  then show ?thesis
    using nz by (simp add: round_double_def Let_def i e)
qed

lemma round_double_28: "round_double 28 = 28"
  using round_double_eqI [of 4 28 7881299347898368] by simp

lemma round_double_30: "round_double 30 = 30"
  using round_double_eqI [of 4 30 8444249301319680] by simp

lemma round_double_15_14: "round_double (15 / 14) = 4825285315039817 / 4503599627370496"
  using round_double_eqI [of 0 "15 / 14" 4825285315039817] by simp

lemma double_max_less: "\<bar>x\<bar> \<le> 2 ^ 1000 \<Longrightarrow> \<not> double_max < \<bar>x\<bar>"
proof -
  have "(2 :: rat) ^ 1000 \<le> double_max"
    by (simp add: double_max_def)
  then show "\<bar>x\<bar> \<le> 2 ^ 1000 \<Longrightarrow> \<not> double_max < \<bar>x\<bar>"
    by simp
qed

lemma int_true_div_28: "int_true_div 28 1 = Inr 28"
  by (simp add: int_true_div_def round_double_28 double_max_def)

lemma loop_bound_28: "loop_bound 1 28 = Inr (Float (4825285315039817 / 4503599627370496))"
  by (simp add: loop_bound_def float_of_int_def float_div_def round_double_30 round_double_15_14
      double_max_def)

lemma upt_2: "[0..<2] = [0, 1]"
  by (simp add: upt_rec)

lemma py_int_of_int: "py_int (of_int k) = k"
  by (simp add: py_int_def)

section \<open>Cycle Phase Calculator\<close>

lemma phase_at_Inr:
  assumes "phase_at ps i = Inr c"
  shows "c = \<lparr>cycle_number = i + 1,
              period_start = start (ps ! i),
              period_end = end' (ps ! i),
              period_duration = duration (ps ! i),
              cycle_length = start (ps ! (i + 1)) - start (ps ! i),
              ovulation_date = start (ps ! (i + 1)) - 14,
              fertile_window_start = start (ps ! (i + 1)) - 14 - 5,
              fertile_window_end = start (ps ! (i + 1)) - 14 + 1,
              pms_alert_date = start (ps ! (i + 1)) - 7,
              next_period_date = start (ps ! (i + 1))\<rparr>"
  using assms by (auto simp: phase_at_def Let_def bind_err_eq_Inr date_add_eq_Inr)

lemma phase_at_in_range:
  assumes "20 \<le> start (ps ! (i + 1))" "start (ps ! (i + 1)) \<le> date_max"
  shows "\<exists>c. phase_at ps i = Inr c"
  using assms by (simp add: phase_at_def Let_def date_add_def date_min_def date_max_def)

lemma phase_at_error: "phase_at ps i = Inl e \<Longrightarrow> e = OverflowError"
  by (auto simp: phase_at_def Let_def bind_err_eq_Inl dest: date_add_eq_Inl)

lemma phases_loop_Inr:
  "phases_loop ps is acc = Inr cs \<longleftrightarrow>
     (\<exists>ds. cs = acc @ ds \<and> list_all2 (\<lambda>i c. phase_at ps i = Inr c) is ds)"
proof (induction "is" arbitrary: acc)
  case Nil
  then show ?case by auto
next
  case (Cons i "is")
  show ?case
  proof
    assume "phases_loop ps (i # is) acc = Inr cs"
    then obtain c where c: "phase_at ps i = Inr c" "phases_loop ps is (acc @ [c]) = Inr cs"
      by (auto simp: bind_err_eq_Inr)
    then obtain ds where "cs = (acc @ [c]) @ ds" "list_all2 (\<lambda>i c. phase_at ps i = Inr c) is ds"
      using Cons.IH by blast
    then show "\<exists>ds. cs = acc @ ds \<and> list_all2 (\<lambda>i c. phase_at ps i = Inr c) (i # is) ds"
      using c(1) by (intro exI [of _ "c # ds"]) simp
  next
    assume "\<exists>ds. cs = acc @ ds \<and> list_all2 (\<lambda>i c. phase_at ps i = Inr c) (i # is) ds"
    then obtain c ds where "cs = acc @ c # ds" "phase_at ps i = Inr c"
      "list_all2 (\<lambda>i c. phase_at ps i = Inr c) is ds"
      by (auto simp: list_all2_Cons1)
    then show "phases_loop ps (i # is) acc = Inr cs"
      using Cons.IH [of "acc @ [c]"] by auto
  qed
qed

lemma calculate_cycle_phases_Inr:
  "calculate_cycle_phases self ps = Inr (cs, self') \<longleftrightarrow>
     self' = self\<lparr>cycle_data := cs\<rparr>
     \<and> list_all2 (\<lambda>i c. phase_at ps i = Inr c) [0..<length ps - 1] cs"
  by (auto simp: calculate_cycle_phases_def bind_err_eq_Inr phases_loop_Inr)

lemma calculate_cycle_phases_length:
  "calculate_cycle_phases self ps = Inr (cs, self') \<Longrightarrow> length cs = length ps - 1"
  by (auto simp: calculate_cycle_phases_Inr dest: list_all2_lengthD)

lemma calculate_cycle_phases_nth:
  assumes "calculate_cycle_phases self ps = Inr (cs, self')" "i + 1 < length ps"
  shows "phase_at ps i = Inr (cs ! i)"
proof -
  have "list_all2 (\<lambda>i c. phase_at ps i = Inr c) [0..<length ps - 1] cs"
    using assms(1) by (simp add: calculate_cycle_phases_Inr)
  moreover have "i < length [0..<length ps - 1]"
    using assms(2) by simp
  ultimately have "phase_at ps ([0..<length ps - 1] ! i) = Inr (cs ! i)"
    by (rule list_all2_nthD)
  then show ?thesis using assms(2) by simp
qed

lemma calculate_cycle_phases_mem:
  assumes "calculate_cycle_phases self ps = Inr (cs, self')" "c \<in> set cs"
  shows "\<exists>i. i + 1 < length ps \<and> phase_at ps i = Inr c"
proof -
  obtain i where i: "i < length cs" "c = cs ! i"
    using assms(2) by (auto simp: in_set_conv_nth)
  have "length cs = length ps - 1"
    using assms(1) by (rule calculate_cycle_phases_length)
  then have "i + 1 < length ps" using i(1) by simp
  then show ?thesis
    using calculate_cycle_phases_nth [OF assms(1)] i(2) by blast
qed

lemma list_all2_exists: "\<forall>i \<in> set xs. \<exists>c. P i c \<Longrightarrow> \<exists>cs. list_all2 P xs cs"
proof (induction xs)
  case Nil
  then show ?case by simp
next
  case (Cons x xs)
  then obtain c cs where "P x c" "list_all2 P xs cs" by auto
  then show ?case by (intro exI [of _ "c # cs"]) simp
qed

lemma calculate_cycle_phases_in_range:
  assumes "\<forall>p \<in> set ps. 20 \<le> start p \<and> start p \<le> date_max"
  shows "\<exists>cs. calculate_cycle_phases self ps = Inr (cs, self\<lparr>cycle_data := cs\<rparr>)"
proof -
  have "\<forall>i \<in> set [0..<length ps - 1]. \<exists>c. phase_at ps i = Inr c"
  proof
    fix i assume "i \<in> set [0..<length ps - 1]"
    then have "i + 1 < length ps" by auto
    then have "ps ! (i + 1) \<in> set ps" by simp
    then show "\<exists>c. phase_at ps i = Inr c"
      using assms by (intro phase_at_in_range) auto
  qed
  then have "\<exists>cs. list_all2 (\<lambda>i c. phase_at ps i = Inr c) [0..<length ps - 1] cs"
    by (rule list_all2_exists)
  then show ?thesis
    by (auto simp: calculate_cycle_phases_Inr)
qed

lemma calculate_cycle_phases_short:
  "length ps < 2 \<Longrightarrow> calculate_cycle_phases self ps = Inr ([], self\<lparr>cycle_data := []\<rparr>)"
  by (simp add: calculate_cycle_phases_Inr)

lemma calculate_cycle_phases_error:
  "calculate_cycle_phases self ps = Inl e \<Longrightarrow> e = OverflowError"
proof -
  have "phases_loop ps is acc = Inl e \<Longrightarrow> e = OverflowError" for "is" acc
    by (induction "is" arbitrary: acc) (auto simp: bind_err_eq_Inl dest: phase_at_error)
  moreover assume "calculate_cycle_phases self ps = Inl e"
  ultimately show ?thesis
    by (auto simp: calculate_cycle_phases_def bind_err_eq_Inl)
qed

lemma scenario_calculate:
  "calculate_cycle_phases init scenario_periods
     = Inr (scenario_phases, init\<lparr>cycle_data := scenario_phases\<rparr>)"
  by code_simp

lemma scenario_phases_eq:
  "scenario_phases =
     [\<lparr>cycle_number = 1, period_start = 738886, period_end = 738889, period_duration = 4,
       cycle_length = 28, ovulation_date = 738900, fertile_window_start = 738895,
       fertile_window_end = 738901, pms_alert_date = 738907, next_period_date = 738914\<rparr>]"
  by code_simp

text \<open>
  Dates in January of the year 1: the ovulation date would fall before 0001-01-01, and the
  call raises.
\<close>

lemma calculate_cycle_phases_early_dates:
  "calculate_cycle_phases init
     [\<lparr>start = 1, end' = 1, duration = 1\<rparr>, \<lparr>start = 10, end' = 10, duration = 1\<rparr>]
     = Inl OverflowError"
  by code_simp

text \<open>
  Claim C5. When the Cycle Phase Calculator returns on a sequence of \<open>N \<ge> 2\<close> periods, it
  returns exactly \<open>N - 1\<close> records, the \<open>i\<close>-th one built from the \<open>i\<close>-th and the
  \<open>(i+1)\<close>-th period, in input order, with \<open>cycle_length\<close> the day difference of their
  start dates. It returns whenever every start date is 0001-01-20 (ordinal 20) or later;
  the only exception it raises is the \<^verbatim>\<open>OverflowError\<close> of a marker date before
  0001-01-01. For fewer than two periods it returns the empty list.
\<close>

theorem calculate_cycle_phases_pairs:
  "(calculate_cycle_phases self ps = Inr (cs, self') \<longrightarrow>
      self' = self\<lparr>cycle_data := cs\<rparr>
      \<and> (2 \<le> length ps \<longrightarrow> length cs + 1 = length ps)
      \<and> (\<forall>i. i + 1 < length ps \<longrightarrow>
            cycle_number (cs ! i) = i + 1
            \<and> period_start (cs ! i) = start (ps ! i)
            \<and> period_end (cs ! i) = end' (ps ! i)
            \<and> period_duration (cs ! i) = duration (ps ! i)
            \<and> next_period_date (cs ! i) = start (ps ! (i + 1))
            \<and> cycle_length (cs ! i) = start (ps ! (i + 1)) - start (ps ! i)))
   \<and> ((\<forall>p \<in> set ps. 20 \<le> start p \<and> start p \<le> date_max) \<longrightarrow>
        (\<exists>cs. calculate_cycle_phases self ps = Inr (cs, self\<lparr>cycle_data := cs\<rparr>)))
   \<and> (calculate_cycle_phases self ps = Inl e \<longrightarrow> e = OverflowError)
   \<and> (length ps < 2 \<longrightarrow> calculate_cycle_phases self ps = Inr ([], self\<lparr>cycle_data := []\<rparr>))"
proof (intro conjI impI allI)
  assume a: "calculate_cycle_phases self ps = Inr (cs, self')"
  show "self' = self\<lparr>cycle_data := cs\<rparr>"
    using a by (simp add: calculate_cycle_phases_Inr)
  show "length cs + 1 = length ps" if "2 \<le> length ps"
    using calculate_cycle_phases_length [OF a] that by simp
  fix i assume i: "i + 1 < length ps"
  note c = phase_at_Inr [OF calculate_cycle_phases_nth [OF a i]]
  show "cycle_number (cs ! i) = i + 1" unfolding c by simp
  show "period_start (cs ! i) = start (ps ! i)" unfolding c by simp
  show "period_end (cs ! i) = end' (ps ! i)" unfolding c by simp
  show "period_duration (cs ! i) = duration (ps ! i)" unfolding c by simp
  show "next_period_date (cs ! i) = start (ps ! (i + 1))" unfolding c by simp
  show "cycle_length (cs ! i) = start (ps ! (i + 1)) - start (ps ! i)" unfolding c by simp
next
  assume "\<forall>p \<in> set ps. 20 \<le> start p \<and> start p \<le> date_max"
  then show "\<exists>cs. calculate_cycle_phases self ps = Inr (cs, self\<lparr>cycle_data := cs\<rparr>)"
    by (rule calculate_cycle_phases_in_range)
next
  assume "calculate_cycle_phases self ps = Inl e"
  then show "e = OverflowError" by (rule calculate_cycle_phases_error)
next
  assume "length ps < 2"
  then show "calculate_cycle_phases self ps = Inr ([], self\<lparr>cycle_data := []\<rparr>)"
    by (rule calculate_cycle_phases_short)
qed

theorem calculate_cycle_phases_pairs_witness:
  "calculate_cycle_phases init scenario_periods
     = Inr (scenario_phases, init\<lparr>cycle_data := scenario_phases\<rparr>)
   \<and> 2 \<le> length scenario_periods
   \<and> length scenario_phases + 1 = length scenario_periods
   \<and> (0::nat) + 1 < length scenario_periods
   \<and> cycle_length (scenario_phases ! 0) = 28
   \<and> 20 \<le> start (scenario_periods ! 0) \<and> start (scenario_periods ! 0) \<le> date_max
   \<and> 20 \<le> start (scenario_periods ! 1) \<and> start (scenario_periods ! 1) \<le> date_max
   \<and> (\<exists>cs. calculate_cycle_phases init scenario_periods = Inr (cs, init\<lparr>cycle_data := cs\<rparr>))
   \<and> length [hd scenario_periods] < 2
   \<and> calculate_cycle_phases init [hd scenario_periods] = Inr ([], init\<lparr>cycle_data := []\<rparr>)"
proof -
  note t = calculate_cycle_phases_pairs
    [of init scenario_periods scenario_phases "init\<lparr>cycle_data := scenario_phases\<rparr>"]
  have l: "length scenario_periods = 2"
    by (simp add: scenario_periods_def)
  have two: "2 \<le> length scenario_periods" and one: "(0::nat) + 1 < length scenario_periods"
    using l by simp_all
  note r = t [THEN conjunct1, THEN mp, OF scenario_calculate]
  have n: "length scenario_phases + 1 = length scenario_periods"
    using r [THEN conjunct2, THEN conjunct1, THEN mp, OF two] .
  have "cycle_length (scenario_phases ! 0)
          = start (scenario_periods ! (0 + 1)) - start (scenario_periods ! 0)"
    using r [THEN conjunct2, THEN conjunct2, THEN spec, of 0, THEN mp, OF one]
    by (elim conjE)
  then have c: "cycle_length (scenario_phases ! 0) = 28"
    by (simp add: scenario_periods_def)
  have s: "length [hd scenario_periods] < 2"
    by simp
  have e: "calculate_cycle_phases init [hd scenario_periods] = Inr ([], init\<lparr>cycle_data := []\<rparr>)"
    using calculate_cycle_phases_pairs [of init "[hd scenario_periods]" "[]" init AttributeError,
        THEN conjunct2, THEN conjunct2, THEN conjunct2, THEN mp, OF s] .
  have d: "20 \<le> start (scenario_periods ! 0)" "start (scenario_periods ! 0) \<le> date_max"
    "20 \<le> start (scenario_periods ! 1)" "start (scenario_periods ! 1) \<le> date_max"
    by (simp_all add: scenario_periods_def date_max_def)
  have b: "\<forall>p \<in> set scenario_periods. 20 \<le> start p \<and> start p \<le> date_max"
    by (simp add: scenario_periods_def date_max_def)
  have x: "\<exists>cs. calculate_cycle_phases init scenario_periods = Inr (cs, init\<lparr>cycle_data := cs\<rparr>)"
    using t [THEN conjunct2, THEN conjunct1, THEN mp, OF b] .
  show ?thesis
    using scenario_calculate two n one c d x s e by (intro conjI)
qed

text \<open>
  Claim C6. Every record produced by the Cycle Phase Calculator has its ovulation date
  14 days before the next period date, its fertile window from 5 days before to 1 day
  after the ovulation date, and its PMS alert date 7 days before the next period date.
\<close>

theorem phase_markers:
  "calculate_cycle_phases self ps = Inr (cs, self') \<longrightarrow>
     (\<forall>c \<in> set cs.
        ovulation_date c = next_period_date c - 14
        \<and> fertile_window_start c = ovulation_date c - 5
        \<and> fertile_window_end c = ovulation_date c + 1
        \<and> pms_alert_date c = next_period_date c - 7)"
proof (intro impI ballI)
  fix c assume "calculate_cycle_phases self ps = Inr (cs, self')" "c \<in> set cs"
  then obtain i where "phase_at ps i = Inr c"
    using calculate_cycle_phases_mem by blast
  note c = phase_at_Inr [OF this]
  show "ovulation_date c = next_period_date c - 14
        \<and> fertile_window_start c = ovulation_date c - 5
        \<and> fertile_window_end c = ovulation_date c + 1
        \<and> pms_alert_date c = next_period_date c - 7"
    unfolding c by simp
qed

theorem phase_markers_witness:
  "calculate_cycle_phases init scenario_periods
     = Inr (scenario_phases, init\<lparr>cycle_data := scenario_phases\<rparr>)
   \<and> hd scenario_phases \<in> set scenario_phases
   \<and> next_period_date (hd scenario_phases) = 738914
   \<and> ovulation_date (hd scenario_phases) = 738900
   \<and> fertile_window_start (hd scenario_phases) = 738895
   \<and> fertile_window_end (hd scenario_phases) = 738901
   \<and> pms_alert_date (hd scenario_phases) = 738907"
proof -
  have m: "hd scenario_phases \<in> set scenario_phases"
    by (simp add: scenario_phases_eq)
  have n: "next_period_date (hd scenario_phases) = 738914"
    by (simp add: scenario_phases_eq)
  note r = phase_markers [of init scenario_periods scenario_phases
      "init\<lparr>cycle_data := scenario_phases\<rparr>", THEN mp, OF scenario_calculate, THEN bspec, OF m]
  have "ovulation_date (hd scenario_phases) = next_period_date (hd scenario_phases) - 14"
    using r [THEN conjunct1] .
  moreover have "fertile_window_start (hd scenario_phases)
      = ovulation_date (hd scenario_phases) - 5"
    using r [THEN conjunct2, THEN conjunct1] .
  moreover have "fertile_window_end (hd scenario_phases)
      = ovulation_date (hd scenario_phases) + 1"
    using r [THEN conjunct2, THEN conjunct2, THEN conjunct1] .
  moreover have "pms_alert_date (hd scenario_phases) = next_period_date (hd scenario_phases) - 7"
    using r [THEN conjunct2, THEN conjunct2, THEN conjunct2] .
  ultimately show ?thesis
    using scenario_calculate m n by simp
qed

section \<open>Insufficient history\<close>

text \<open>
  Claim C8. With zero or one period the cycle phase sequence is empty, and then the
  Summary Reporter prints the "no data" line and returns without raising, and the
  calendar generator returns a calendar without events, the forecast block being skipped.
\<close>

theorem insufficient_history:
  "length ps \<le> 1 \<longrightarrow>
     calculate_cycle_phases self ps = Inr ([], self\<lparr>cycle_data := []\<rparr>)
     \<and> print_summary (self\<lparr>cycle_data := []\<rparr>) = Inr NoData
     \<and> generate_ical_calendar [] months_future today = Some (Inr [])"
  by (simp add: calculate_cycle_phases_short print_summary_def generate_ical_calendar_def)

theorem insufficient_history_witness:
  "length [hd scenario_periods] \<le> 1
   \<and> calculate_cycle_phases init [hd scenario_periods] = Inr ([], init\<lparr>cycle_data := []\<rparr>)
   \<and> print_summary (init\<lparr>cycle_data := []\<rparr>) = Inr NoData
   \<and> generate_ical_calendar [] 6 739000 = Some (Inr [])"
proof -
  have h: "length [hd scenario_periods] \<le> 1"
    by simp
  note r = insufficient_history [of "[hd scenario_periods]" init 6 739000, THEN mp, OF h]
  show ?thesis
    using h r [THEN conjunct1] r [THEN conjunct2, THEN conjunct1]
      r [THEN conjunct2, THEN conjunct2]
    by (intro conjI)
qed

section \<open>Period Segmenter\<close>

lemma gaps_snoc2: "gaps (rs @ [r, s]) = (gaps (rs @ [r]) \<and> last r + 2 < hd s)"
  by (induction rs rule: gaps.induct) auto

lemma gaps_extend_last: "r \<noteq> [] \<Longrightarrow> gaps (rs @ [r @ [d]]) = gaps (rs @ [r])"
  by (induction rs rule: gaps.induct) auto

lemma walk_runs:
  "cur \<noteq> [] \<Longrightarrow> last cur = prev \<Longrightarrow> acc = map close_period rs \<Longrightarrow> [] \<notin> set rs \<Longrightarrow>
   gaps (rs @ [cur]) \<Longrightarrow>
   \<exists>rs' c. walk (Some prev) ds acc cur = (map close_period rs', c) \<and> c \<noteq> []
       \<and> concat (rs' @ [c]) = concat (rs @ [cur]) @ ds \<and> [] \<notin> set rs' \<and> gaps (rs' @ [c])"
proof (induction ds arbitrary: prev acc cur rs)
  case Nil
  then show ?case by auto
next
  case (Cons d ds)
  show ?case
  proof (cases "d - prev > 2")
    case True
    have "\<exists>rs' c. walk (Some d) ds (map close_period (rs @ [cur])) [d] = (map close_period rs', c)
        \<and> c \<noteq> [] \<and> concat (rs' @ [c]) = concat ((rs @ [cur]) @ [[d]]) @ ds \<and> [] \<notin> set rs'
        \<and> gaps (rs' @ [c])"
      using Cons.prems True
      by (intro Cons.IH) (auto simp: gaps_snoc2)
    then show ?thesis using Cons.prems True by auto
  next
    case False
    have "\<exists>rs' c. walk (Some d) ds acc (cur @ [d]) = (map close_period rs', c)
        \<and> c \<noteq> [] \<and> concat (rs' @ [c]) = concat (rs @ [cur @ [d]]) @ ds \<and> [] \<notin> set rs'
        \<and> gaps (rs' @ [c])"
      using Cons.prems False
      by (intro Cons.IH) (auto simp: gaps_extend_last)
    then show ?thesis using Cons.prems False by auto
  qed
qed

lemma identify_periods_runs:
  assumes "identify_periods self = Inr ps" "periods self = DataFrame df"
  shows "\<exists>rs. ps = map close_period rs \<and> concat rs = sort (map date df) \<and> [] \<notin> set rs \<and> gaps rs"
proof (cases "sort (map date df)")
  case Nil
  then have "df = []" by (metis length_sort length_map length_0_conv)
  with assms show ?thesis by (auto simp: identify_periods_def)
next
  case (Cons d ds)
  then have ne: "df \<noteq> []" by auto
  obtain rs' c where w: "walk (Some d) ds [] [d] = (map close_period rs', c)" "c \<noteq> []"
      "concat (rs' @ [c]) = concat ([] @ [[d]]) @ ds" "[] \<notin> set rs'" "gaps (rs' @ [c])"
    using walk_runs [of "[d]" d "[]" "[]" ds] by auto
  have "ps = map close_period (rs' @ [c])"
    using assms ne Cons w by (simp add: identify_periods_def)
  with w Cons show ?thesis by (intro exI [of _ "rs' @ [c]"]) auto
qed

lemma sorted_hd_le: "sorted (xs :: int list) \<Longrightarrow> x \<in> set xs \<Longrightarrow> hd xs \<le> x"
  by (cases xs) auto

lemma sorted_le_last: "sorted (xs :: int list) \<Longrightarrow> x \<in> set xs \<Longrightarrow> x \<le> last xs"
  by (induction xs) (auto split: if_splits)

lemma sorted_Min_hd: "sorted (xs :: int list) \<Longrightarrow> xs \<noteq> [] \<Longrightarrow> Min (set xs) = hd xs"
  by (intro Min_eqI) (auto simp: sorted_hd_le)

lemma sorted_Max_last: "sorted (xs :: int list) \<Longrightarrow> xs \<noteq> [] \<Longrightarrow> Max (set xs) = last xs"
  by (intro Max_eqI) (auto simp: sorted_le_last)

lemma sorted_concat_run: "sorted (concat rs) \<Longrightarrow> r \<in> set rs \<Longrightarrow> sorted (r :: int list)"
  by (induction rs) (auto simp: sorted_append)

lemma filter_span_self:
  "sorted (r :: int list) \<Longrightarrow> filter (\<lambda>d. hd r \<le> d \<and> d \<le> last r) r = r"
  by (simp add: sorted_hd_le sorted_le_last)

lemma run_filter:
  "sorted (concat rs) \<Longrightarrow> [] \<notin> set rs \<Longrightarrow> gaps rs \<Longrightarrow> r \<in> set rs \<Longrightarrow>
   filter (\<lambda>d. hd r \<le> d \<and> d \<le> last r) (concat rs) = r"
proof (induction rs)
  case Nil
  then show ?case by simp
next
  case (Cons r0 rs)
  have s0: "sorted r0" and s1: "sorted (concat rs)"
    and le: "\<And>x y. x \<in> set r0 \<Longrightarrow> y \<in> set (concat rs) \<Longrightarrow> x \<le> y"
    using Cons.prems(1) by (auto simp: sorted_append)
  have g: "gaps rs" using Cons.prems(3) by (cases rs) auto
  have sep: "last r0 + 2 < y" if "y \<in> set (concat rs)" for y
  proof (cases rs)
    case Nil
    with that show ?thesis by simp
  next
    case (Cons s rs')
    have "s \<noteq> []" using Cons.prems(2) Cons by auto
    then have "hd s \<in> set (concat rs)" using Cons by auto
    have "hd (concat rs) = hd s" using Cons \<open>s \<noteq> []\<close> by simp
    then have "hd s \<le> y" using sorted_hd_le [OF s1 that] by simp
    moreover have "last r0 + 2 < hd s" using Cons.prems(3) Cons by simp
    ultimately show ?thesis by simp
  qed
  show ?case
  proof (cases "r = r0")
    case True
    have "\<not> (hd r0 \<le> y \<and> y \<le> last r0)" if "y \<in> set (concat rs)" for y
      using sep [OF that] by simp
    then have "filter (\<lambda>d. hd r0 \<le> d \<and> d \<le> last r0) (concat rs) = []"
      unfolding filter_empty_conv by blast
    then show ?thesis using True filter_span_self [OF s0] by simp
  next
    case False
    then have mem: "r \<in> set rs" using Cons.prems(4) by simp
    have "r \<noteq> []" using mem Cons.prems(2) by auto
    then have "hd r \<in> set r" by simp
    then have "hd r \<in> set (concat rs)" using mem by auto
    then have "last r0 + 2 < hd r" by (rule sep)
    then have "filter (\<lambda>d. hd r \<le> d \<and> d \<le> last r) r0 = []"
      using sorted_le_last [OF s0] by (fastforce simp: filter_empty_conv)
    moreover have "filter (\<lambda>d. hd r \<le> d \<and> d \<le> last r) (concat rs) = r"
      using Cons.IH [OF s1 _ g mem] Cons.prems(2) by simp
    ultimately show ?thesis by simp
  qed
qed

lemma gaps_nth: "gaps rs \<Longrightarrow> Suc i < length rs \<Longrightarrow> last (rs ! i) + 2 < hd (rs ! Suc i)"
proof (induction rs arbitrary: i rule: gaps.induct)
  case (1 r s rs)
  then show ?case by (cases i) auto
qed auto

lemma start_close_period: "sorted r \<Longrightarrow> r \<noteq> [] \<Longrightarrow> start (close_period r) = hd r"
  by (simp add: close_period_def sorted_Min_hd)

lemma end_close_period: "sorted r \<Longrightarrow> r \<noteq> [] \<Longrightarrow> end' (close_period r) = last r"
  by (simp add: close_period_def sorted_Max_last)

lemma duration_close_period: "duration (close_period r) = length r"
  by (simp add: close_period_def)

lemma identify_periods_DataFrame:
  "identify_periods self = Inr ps \<Longrightarrow> \<exists>df. periods self = DataFrame df"
  by (cases "periods self") (auto simp: identify_periods_def)

lemma gap_chain:
  assumes le: "\<forall>p \<in> set ps. start p \<le> end' p"
    and gap: "\<forall>i. i + 1 < length ps \<longrightarrow> end' (ps ! i) + 2 < start (ps ! (i + 1))"
  shows "i < j \<Longrightarrow> j < length ps \<Longrightarrow> end' (ps ! i) + 2 < start (ps ! j)"
proof (induction j)
  case 0
  then show ?case by simp
next
  case (Suc j)
  show ?case
  proof (cases "i = j")
    case True
    then show ?thesis using gap Suc.prems by simp
  next
    case False
    then have "end' (ps ! i) + 2 < start (ps ! j)" using Suc by simp
    moreover have "start (ps ! j) \<le> end' (ps ! j)" using le Suc.prems by simp
    moreover have "end' (ps ! j) + 2 < start (ps ! (j + 1))" using gap Suc.prems by simp
    ultimately show ?thesis by simp
  qed
qed

lemma identify_periods_basic:
  assumes "identify_periods self = Inr ps"
  shows "\<forall>p \<in> set ps. start p \<le> end' p"
    and "\<forall>i. i + 1 < length ps \<longrightarrow> end' (ps ! i) + 2 < start (ps ! (i + 1))"
proof -
  obtain df where df: "periods self = DataFrame df"
    using identify_periods_DataFrame [OF assms] by blast
  obtain rs where rs: "ps = map close_period rs" "concat rs = sort (map date df)"
      "[] \<notin> set rs" "gaps rs"
    using identify_periods_runs [OF assms df] by blast
  have srt: "sorted (concat rs)" using rs(2) by simp
  have run: "sorted r \<and> r \<noteq> []" if "r \<in> set rs" for r
    using that sorted_concat_run [OF srt] rs(3) by auto
  show "\<forall>p \<in> set ps. start p \<le> end' p"
  proof
    fix p assume "p \<in> set ps"
    then obtain r where r: "r \<in> set rs" "p = close_period r" using rs(1) by auto
    have "hd r \<le> last r" using run [OF r(1)] by (simp add: sorted_hd_le)
    then show "start p \<le> end' p"
      using run [OF r(1)] r(2) by (simp add: start_close_period end_close_period)
  qed
  show "\<forall>i. i + 1 < length ps \<longrightarrow> end' (ps ! i) + 2 < start (ps ! (i + 1))"
  proof (intro allI impI)
    fix i assume i: "i + 1 < length ps"
    then have "rs ! i \<in> set rs" "rs ! Suc i \<in> set rs" using rs(1) by auto
    then have "end' (ps ! i) = last (rs ! i)" "start (ps ! (i + 1)) = hd (rs ! Suc i)"
      using run i rs(1) by (simp_all add: start_close_period end_close_period)
    then show "end' (ps ! i) + 2 < start (ps ! (i + 1))"
      using gaps_nth [OF rs(4), of i] i rs(1) by simp
  qed
qed

lemma segmenter_cycle_lengths:
  assumes a: "identify_periods self = Inr ps"
    and b: "calculate_cycle_phases self'' ps = Inr (cs, self')"
  shows "\<forall>c \<in> set cs. 3 \<le> cycle_length c"
proof
  fix c assume "c \<in> set cs"
  then obtain i where i: "i + 1 < length ps" "phase_at ps i = Inr c"
    using calculate_cycle_phases_mem [OF b] by blast
  note c = phase_at_Inr [OF i(2)]
  have "start (ps ! i) \<le> end' (ps ! i)"
    using identify_periods_basic(1) [OF a] i(1) by simp
  moreover have "end' (ps ! i) + 2 < start (ps ! (i + 1))"
    using identify_periods_basic(2) [OF a] i(1) by simp
  ultimately show "3 \<le> cycle_length c"
    unfolding c by simp
qed

text \<open>
  Claim C10. In every sequence returned by the Period Segmenter each period has
  \<open>start \<le> end\<close>, each period starts more than 2 days after the end of the one before,
  hence any two periods are disjoint and strictly ordered by start, and every
  \<open>cycle_length\<close> that the Cycle Phase Calculator derives from the sequence is at least 3.
\<close>

theorem identify_periods_invariant:
  "identify_periods self = Inr ps \<longrightarrow>
     (\<forall>p \<in> set ps. start p \<le> end' p)
     \<and> (\<forall>i. i + 1 < length ps \<longrightarrow> end' (ps ! i) + 2 < start (ps ! (i + 1)))
     \<and> (\<forall>i j. i < j \<and> j < length ps \<longrightarrow>
           end' (ps ! i) < start (ps ! j) \<and> start (ps ! i) < start (ps ! j))
     \<and> (\<forall>cs self'. calculate_cycle_phases self ps = Inr (cs, self') \<longrightarrow>
           (\<forall>c \<in> set cs. 3 \<le> cycle_length c))"
proof
  assume a: "identify_periods self = Inr ps"
  note le = identify_periods_basic(1) [OF a] and gap = identify_periods_basic(2) [OF a]
  have chain: "end' (ps ! i) + 2 < start (ps ! j)" if "i < j" "j < length ps" for i j
    using gap_chain [OF le gap that] .
  have ord: "end' (ps ! i) < start (ps ! j) \<and> start (ps ! i) < start (ps ! j)"
    if "i < j" "j < length ps" for i j
  proof -
    have "start (ps ! i) \<le> end' (ps ! i)" using le that by simp
    then show ?thesis using chain [OF that] by simp
  qed
  have len: "\<forall>c \<in> set cs. 3 \<le> cycle_length c"
    if "calculate_cycle_phases self ps = Inr (cs, self')" for cs self'
    using segmenter_cycle_lengths [OF a that] .
  show "(\<forall>p \<in> set ps. start p \<le> end' p)
     \<and> (\<forall>i. i + 1 < length ps \<longrightarrow> end' (ps ! i) + 2 < start (ps ! (i + 1)))
     \<and> (\<forall>i j. i < j \<and> j < length ps \<longrightarrow>
           end' (ps ! i) < start (ps ! j) \<and> start (ps ! i) < start (ps ! j))
     \<and> (\<forall>cs self'. calculate_cycle_phases self ps = Inr (cs, self') \<longrightarrow>
           (\<forall>c \<in> set cs. 3 \<le> cycle_length c))"
    using le gap ord len by blast
qed

lemma scenario_identify: "identify_periods scenario = Inr scenario_periods"
  by (simp add: identify_periods_def scenario_def parse_health_data_def scenario_records_def
      flow_record_def init_def close_period_def scenario_periods_def Let_def)

lemma scenario_calculate':
  "calculate_cycle_phases scenario scenario_periods
     = Inr (scenario_phases, scenario\<lparr>cycle_data := scenario_phases\<rparr>)"
  using scenario_calculate by (simp add: calculate_cycle_phases_Inr)

theorem identify_periods_invariant_witness:
  "identify_periods scenario = Inr scenario_periods
   \<and> start (scenario_periods ! 0) \<le> end' (scenario_periods ! 0)
   \<and> end' (scenario_periods ! 0) + 2 < start (scenario_periods ! 1)
   \<and> start (scenario_periods ! 0) < start (scenario_periods ! 1)
   \<and> calculate_cycle_phases scenario scenario_periods
       = Inr (scenario_phases, scenario\<lparr>cycle_data := scenario_phases\<rparr>)
   \<and> 3 \<le> cycle_length (hd scenario_phases)"
proof -
  note r = identify_periods_invariant [of scenario scenario_periods, THEN mp, OF scenario_identify]
  have l: "length scenario_periods = 2"
    by (simp add: scenario_periods_def)
  have z: "scenario_periods ! 0 \<in> set scenario_periods"
    by (simp add: scenario_periods_def)
  have m: "hd scenario_phases \<in> set scenario_phases"
    by (simp add: scenario_phases_eq)
  have "start (scenario_periods ! 0) \<le> end' (scenario_periods ! 0)"
    using r [THEN conjunct1, THEN bspec, OF z] .
  moreover have "end' (scenario_periods ! 0) + 2 < start (scenario_periods ! (0 + 1))"
    using r [THEN conjunct2, THEN conjunct1, THEN spec, of 0] l by simp
  moreover have "start (scenario_periods ! 0) < start (scenario_periods ! 1)"
    using r [THEN conjunct2, THEN conjunct2, THEN conjunct1, THEN spec, THEN spec, of 0 1] l
    by simp
  moreover have "3 \<le> cycle_length (hd scenario_phases)"
    using r [THEN conjunct2, THEN conjunct2, THEN conjunct2, THEN spec, THEN spec, THEN mp,
        OF scenario_calculate', THEN bspec, OF m] .
  ultimately show ?thesis
    using scenario_identify scenario_calculate' by simp
qed

lemma length_filter_sort:
  "length (filter P (sort (xs :: int list))) = length (filter P xs)"
  by (simp add: filter_sort)

lemma identify_periods_duration:
  assumes a: "identify_periods self = Inr ps" and df: "periods self = DataFrame df"
  shows "\<forall>p \<in> set ps.
           duration p = length (filter (\<lambda>ob. start p \<le> date ob \<and> date ob \<le> end' p) df)"
    and "sum_list (map duration ps) = length df"
proof -
  obtain rs where rs: "ps = map close_period rs" "concat rs = sort (map date df)"
      "[] \<notin> set rs" "gaps rs"
    using identify_periods_runs [OF a df] by blast
  have srt: "sorted (concat rs)" using rs(2) by simp
  show "\<forall>p \<in> set ps.
           duration p = length (filter (\<lambda>ob. start p \<le> date ob \<and> date ob \<le> end' p) df)"
  proof
    fix p assume "p \<in> set ps"
    then obtain r where r: "r \<in> set rs" "p = close_period r" using rs(1) by auto
    have run: "sorted r" "r \<noteq> []" using r(1) sorted_concat_run [OF srt] rs(3) by auto
    have se: "start p = hd r" "end' p = last r"
      using run r(2) by (simp_all add: start_close_period end_close_period)
    have "length r = length (filter (\<lambda>d. hd r \<le> d \<and> d \<le> last r) (sort (map date df)))"
      using run_filter [OF srt rs(3) rs(4) r(1)] rs(2) by simp
    also have "\<dots> = length (filter (\<lambda>d. hd r \<le> d \<and> d \<le> last r) (map date df))"
      by (rule length_filter_sort)
    also have "\<dots> = length (filter (\<lambda>ob. hd r \<le> date ob \<and> date ob \<le> last r) df)"
      by (simp add: filter_map comp_def)
    finally show "duration p
        = length (filter (\<lambda>ob. start p \<le> date ob \<and> date ob \<le> end' p) df)"
      using r(2) se by (simp add: duration_close_period)
  qed
  have "sum_list (map duration ps) = sum_list (map length rs)"
    using rs(1) by (simp add: comp_def duration_close_period)
  also have "\<dots> = length (concat rs)"
    by (simp add: length_concat)
  also have "\<dots> = length df"
    using rs(2) by simp
  finally show "sum_list (map duration ps) = length df" .
qed

lemma identify_periods_skipped_day:
  "identify_periods skipped_day = Inr [\<lparr>start = 738886, end' = 738888, duration = 2\<rparr>]"
  by (simp add: identify_periods_def skipped_day_def flow_record_def close_period_def)

lemma identify_periods_repeated_day:
  "identify_periods repeated_day = Inr [\<lparr>start = 738955, end' = 738955, duration = 2\<rparr>]"
  by (simp add: identify_periods_def repeated_day_def flow_record_def close_period_def)

text \<open>
  Claim C1, as the code has it. The duration of a period is the number of observations
  folded into it, which are the observations dated from its start to its end: a date
  recorded twice counts twice. The durations add up to the number of observations, and a
  duration can differ from \<open>end - start + 1\<close>.
\<close>

theorem duration_counts_observations:
  "(identify_periods self = Inr ps \<and> periods self = DataFrame df \<longrightarrow>
      (\<forall>p \<in> set ps.
         duration p = length (filter (\<lambda>ob. start p \<le> date ob \<and> date ob \<le> end' p) df))
      \<and> sum_list (map duration ps) = length df)
   \<and> (\<exists>self' ps' p. identify_periods self' = Inr ps' \<and> p \<in> set ps'
         \<and> int (duration p) \<noteq> end' p - start p + 1)"
proof (rule conjI, rule impI)
  assume "identify_periods self = Inr ps \<and> periods self = DataFrame df"
  then show "(\<forall>p \<in> set ps.
         duration p = length (filter (\<lambda>ob. start p \<le> date ob \<and> date ob \<le> end' p) df))
      \<and> sum_list (map duration ps) = length df"
    using identify_periods_duration by blast
next
  show "\<exists>self' ps' p. identify_periods self' = Inr ps' \<and> p \<in> set ps'
         \<and> int (duration p) \<noteq> end' p - start p + 1"
    by (intro exI [of _ skipped_day] exI [of _ "[\<lparr>start = 738886, end' = 738888, duration = 2\<rparr>]"]
        exI [of _ "\<lparr>start = 738886, end' = 738888, duration = 2\<rparr>"])
      (simp add: identify_periods_skipped_day)
qed

theorem duration_counts_observations_witness:
  "identify_periods repeated_day = Inr [\<lparr>start = 738955, end' = 738955, duration = 2\<rparr>]
   \<and> periods repeated_day = DataFrame [flow_record 738955, flow_record 738955]
   \<and> length (filter (\<lambda>ob. 738955 \<le> date ob \<and> date ob \<le> 738955)
        [flow_record 738955, flow_record 738955]) = 2
   \<and> sum_list (map duration [\<lparr>start = 738955, end' = 738955, duration = 2\<rparr>]) = 2"
proof -
  have d: "periods repeated_day = DataFrame [flow_record 738955, flow_record 738955]"
    by (simp add: repeated_day_def)
  from duration_counts_observations
    [of repeated_day "[\<lparr>start = 738955, end' = 738955, duration = 2\<rparr>]"
      "[flow_record 738955, flow_record 738955]"]
    identify_periods_repeated_day d
  have "(\<forall>p \<in> set [\<lparr>start = 738955, end' = 738955, duration = 2\<rparr>].
           duration p = length (filter (\<lambda>ob. start p \<le> date ob \<and> date ob \<le> end' p)
             [flow_record 738955, flow_record 738955]))
        \<and> sum_list (map duration [\<lparr>start = 738955, end' = 738955, duration = 2\<rparr>])
           = length [flow_record 738955, flow_record 738955]"
    by blast
  then show ?thesis
    using identify_periods_repeated_day d by simp
qed

text \<open>
  Claim C1 as stated fails: two flow records on 2024-03-10 give one period of duration 2,
  with a single distinct observation date.
\<close>

theorem duration_distinct_dates_counterexample:
  "identify_periods repeated_day = Inr [\<lparr>start = 738955, end' = 738955, duration = 2\<rparr>]
   \<and> periods repeated_day = DataFrame [flow_record 738955, flow_record 738955]
   \<and> card (date ` set [flow_record 738955, flow_record 738955]) = 1
   \<and> duration \<lparr>start = 738955, end' = 738955, duration = 2\<rparr>
       \<noteq> card (date ` set [flow_record 738955, flow_record 738955])"
proof -
  have "periods repeated_day = DataFrame [flow_record 738955, flow_record 738955]"
    by (simp add: repeated_day_def)
  moreover have "card (date ` set [flow_record 738955, flow_record 738955]) = 1"
    by (simp add: flow_record_def)
  ultimately show ?thesis
    using identify_periods_repeated_day by simp
qed

subsection \<open>The gap threshold and the edge cases\<close>

lemma walk_current_nonempty:
  "cur \<noteq> [] \<Longrightarrow> snd (walk (Some prev) ds acc cur) \<noteq> []"
  by (induction ds arbitrary: prev acc cur) auto

lemma walk_length:
  "cur \<noteq> [] \<Longrightarrow>
   length (fst (walk (Some prev) ds acc cur))
     = length acc + length (filter (\<lambda>(a, b). b - a > 2) (zip (prev # ds) ds))"
  by (induction ds arbitrary: prev acc cur) auto

lemma identify_periods_splits:
  assumes "df \<noteq> []" "identify_periods (self\<lparr>periods := DataFrame df\<rparr>) = Inr ps"
  shows "length ps
     = Suc (length (filter (\<lambda>(a, b). b - a > 2)
                      (zip (sort (map date df)) (tl (sort (map date df))))))"
proof (cases "sort (map date df)")
  case Nil
  then have "df = []" by (metis length_sort length_map length_0_conv)
  with assms(1) show ?thesis by simp
next
  case (Cons d ds)
  have ne: "snd (walk (Some d) ds [] [d]) \<noteq> []"
    by (rule walk_current_nonempty) simp
  have "ps = fst (walk (Some d) ds [] [d]) @ [close_period (snd (walk (Some d) ds [] [d]))]"
    using assms Cons ne by (simp add: identify_periods_def split_beta)
  then show ?thesis
    using Cons walk_length [of "[d]" d ds "[]"] by simp
qed

lemma identify_periods_empty_frame:
  "identify_periods (self\<lparr>periods := DataFrame []\<rparr>) = Inr []"
  by (simp add: identify_periods_def)

lemma identify_periods_single:
  "identify_periods (self\<lparr>periods := DataFrame [ob]\<rparr>)
     = Inr [\<lparr>start = date ob, end' = date ob, duration = 1\<rparr>]"
  by (simp add: identify_periods_def close_period_def)

lemma identify_periods_two:
  "date a \<le> date b \<Longrightarrow>
   identify_periods (self\<lparr>periods := DataFrame [a, b]\<rparr>)
     = Inr (if date b - date a > 2
            then [\<lparr>start = date a, end' = date a, duration = 1\<rparr>,
                  \<lparr>start = date b, end' = date b, duration = 1\<rparr>]
            else [\<lparr>start = date a, end' = date b, duration = 2\<rparr>])"
  by (simp add: identify_periods_def close_period_def min_def max_def)

text \<open>
  Claim C7. The threshold is exclusive and a single observation yields one period of
  duration 1 (the lemmas above). An export without flow records, however, leaves the
  Python list of the constructor in \<^verbatim>\<open>self.periods\<close>, and \<^verbatim>\<open>identify_periods\<close> then
  raises \<^verbatim>\<open>AttributeError\<close> at \<^verbatim>\<open>self.periods.empty\<close> instead of returning the empty
  sequence.
\<close>

theorem identify_periods_empty_export:
  "periods (snd (parse_health_data init [])) = PyList
   \<and> identify_periods (snd (parse_health_data init [])) = Inl AttributeError"
  by (simp add: parse_health_data_def init_def identify_periods_def)

section \<open>Forecast Projector\<close>

lemma predicted_periods_append [simp]:
  "predicted_periods (xs @ ys) = predicted_periods xs @ predicted_periods ys"
  by (simp add: predicted_periods_def)

lemma predicted_periods_Nil [simp]: "predicted_periods [] = []"
  by (simp add: predicted_periods_def)

lemma historical_events_predicted:
  "historical_events c = Inr evs \<Longrightarrow> predicted_periods evs = []"
  by (auto simp: historical_events_def bind_err_eq_Inr predicted_periods_def)

lemma historical_events_error: "historical_events c = Inl e \<Longrightarrow> e = OverflowError"
  by (auto simp: historical_events_def bind_err_eq_Inl dest: date_add_eq_Inl)

lemma historical_events_in_range:
  "historical_in_range c \<Longrightarrow> \<exists>evs. historical_events c = Inr evs"
  by (simp add: historical_events_def historical_in_range_def date_add_def)

lemma historical_loop_predicted:
  "historical_loop cs cal = Inr cal' \<Longrightarrow> predicted_periods cal' = predicted_periods cal"
proof (induction cs arbitrary: cal)
  case Nil
  then show ?case by simp
next
  case (Cons c cs)
  then obtain evs where e: "historical_events c = Inr evs"
      "historical_loop cs (cal @ evs) = Inr cal'"
    by (auto simp: bind_err_eq_Inr)
  then show ?case
    using Cons.IH [OF e(2)] historical_events_predicted [OF e(1)] by simp
qed

lemma historical_loop_error: "historical_loop cs cal = Inl e \<Longrightarrow> e = OverflowError"
proof (induction cs arbitrary: cal)
  case Nil
  then show ?case by simp
next
  case (Cons c cs)
  then show ?case
    by (auto simp: bind_err_eq_Inl dest: historical_events_error)
qed

lemma historical_loop_in_range:
  "\<forall>c \<in> set cs. historical_in_range c \<Longrightarrow> \<exists>cal'. historical_loop cs cal = Inr cal'"
proof (induction cs arbitrary: cal)
  case Nil
  then show ?case by simp
next
  case (Cons c cs)
  then obtain evs where "historical_events c = Inr evs"
    using historical_events_in_range [of c] by auto
  then show ?case
    using Cons by simp
qed

lemma historical_loop_Nil [simp]: "historical_loop [] cal = Inr cal"
  by simp

lemma future_pass_Inr:
  assumes "future_pass l t a c = Inr (evs, c')"
  shows "predicted_periods evs = [predicted_event l c]" and "c' = c + py_int a"
  using assms
  by (auto simp: future_pass_def Let_def bind_err_eq_Inr date_add_eq_Inr predicted_periods_def
      predicted_event_def)

lemma future_pass_error: "future_pass l t a c = Inl e \<Longrightarrow> e = OverflowError"
  by (auto simp: future_pass_def Let_def bind_err_eq_Inl dest: date_add_eq_Inl)

lemma future_pass_in_range:
  assumes "pass_in_range l a c"
  shows "\<exists>evs. future_pass l t a c = Inr (evs, c + py_int a)"
  using assms
  by (simp add: pass_in_range_def future_pass_def Let_def date_add_def date_min_def date_max_def)

lemma float_of_int_error: "float_of_int n = Inl e \<Longrightarrow> e = OverflowError"
  by (auto simp: float_of_int_def Let_def split: if_splits)

lemma float_div_error: "float_div x a = Inl e \<Longrightarrow> e = ZeroDivisionError \<and> a = 0"
  by (auto simp: float_div_def Let_def split: if_splits)

lemma loop_bound_error:
  "loop_bound m a = Inl e \<Longrightarrow> e = OverflowError \<or> e = ZeroDivisionError \<and> a = 0"
  by (auto simp: loop_bound_def bind_err_eq_Inl dest: float_of_int_error float_div_error)

lemma loop_bound_zero:
  "float_of_int (m * 30) = Inr fm \<Longrightarrow> loop_bound m 0 = Inl ZeroDivisionError"
  by (simp add: loop_bound_def float_div_def)

lemma int_less_float_passes:
  "int_less_float n q \<Longrightarrow> q \<noteq> PosInf \<Longrightarrow> passes q - n = Suc (passes q - (n + 1))"
proof (cases q)
  case (Float r)
  assume "int_less_float n q"
  then have "of_nat n < r" using Float by (simp add: int_less_float_def)
  then have "int n < \<lceil>r\<rceil>" by (simp add: less_ceiling_iff)
  then show ?thesis using Float by simp
qed (simp_all add: int_less_float_def)

lemma not_int_less_float_passes:
  "\<not> int_less_float n q \<Longrightarrow> q \<noteq> PosInf \<and> passes q - n = 0"
proof (cases q)
  case (Float r)
  assume "\<not> int_less_float n q"
  then have "r \<le> of_nat n" using Float by (simp add: int_less_float_def)
  then have "\<lceil>r\<rceil> \<le> int n" by (simp add: ceiling_le_iff)
  then show ?thesis using Float by simp
qed (simp_all add: int_less_float_def)

lemma upt_0_Suc_shift: "map f [0..<Suc j] = f 0 # map (\<lambda>k. f (Suc k)) [0..<j]"
proof -
  have "[0..<Suc j] = 0 # map Suc [0..<j]"
    by (simp only: map_Suc_upt upt_conv_Cons [of 0 "Suc j"] zero_less_Suc)
  then show ?thesis
    by (simp add: comp_def)
qed

text \<open>What a returned calendar holds.\<close>

lemma future_loop_returns:
  assumes "future_loop m a l t c n cal = Some (Inr cal')"
  shows "\<exists>q. loop_bound m a = Inr q \<and> q \<noteq> PosInf
           \<and> predicted_periods cal'
             = predicted_periods cal
               @ map (\<lambda>k. predicted_event l (c + int k * py_int a)) [0..<passes q - n]"
proof -
  have "\<forall>cal'. res = Inr cal' \<longrightarrow>
          (\<exists>q. loop_bound m a = Inr q \<and> q \<noteq> PosInf
             \<and> predicted_periods cal'
               = predicted_periods cal
                 @ map (\<lambda>k. predicted_event l (c + int k * py_int a)) [0..<passes q - n])"
    if "future_loop m a l t c n cal = Some res" for res
    using that
  proof (induction rule: future_loop.raw_induct [rotated, consumes 1, case_names step])
    case (step loop m a l t c n cal res)
    show ?case
    proof (intro allI impI)
      fix cal' assume res: "res = Inr cal'"
      from step.hyps res obtain q where q: "loop_bound m a = Inr q"
        by (cases "loop_bound m a") simp_all
      show "\<exists>q. loop_bound m a = Inr q \<and> q \<noteq> PosInf
             \<and> predicted_periods cal'
               = predicted_periods cal
                 @ map (\<lambda>k. predicted_event l (c + int k * py_int a)) [0..<passes q - n]"
      proof (cases "int_less_float n q")
        case True
        from step.hyps res q True obtain evs c' where p: "future_pass l t a c = Inr (evs, c')"
          and rec: "loop m a l t c' (n + 1) (cal @ evs) = Some (Inr cal')"
          by (cases "future_pass l t a c") (auto split: prod.splits)
        from step.IH [OF rec] obtain q' where q': "loop_bound m a = Inr q'" "q' \<noteq> PosInf"
          "predicted_periods cal'
             = predicted_periods (cal @ evs)
               @ map (\<lambda>k. predicted_event l (c' + int k * py_int a)) [0..<passes q' - (n + 1)]"
          by blast
        have qq: "q' = q" using q q'(1) by simp
        have c': "c' = c + py_int a" and ev: "predicted_periods evs = [predicted_event l c]"
          using future_pass_Inr [OF p] by simp_all
        have "map (\<lambda>k. predicted_event l (c + int k * py_int a)) [0..<passes q - n]
              = predicted_event l c
                # map (\<lambda>k. predicted_event l (c' + int k * py_int a)) [0..<passes q - (n + 1)]"
          unfolding int_less_float_passes [OF True \<open>q' \<noteq> PosInf\<close> [unfolded qq]] upt_0_Suc_shift
          by (simp add: c' algebra_simps)
        then show ?thesis
          using q q' qq ev by simp
      next
        case False
        then have "cal' = cal" using step.hyps res q by simp
        then show ?thesis
          using q not_int_less_float_passes [OF False] by simp
      qed
    qed
  qed
  then show ?thesis using assms by blast
qed

text \<open>The exceptions of the loop.\<close>

lemma future_loop_error:
  assumes "future_loop m a l t c n cal = Some (Inl e)"
  shows "e = OverflowError \<or> e = ZeroDivisionError \<and> a = 0"
proof -
  have "\<forall>e. res = Inl e \<longrightarrow> e = OverflowError \<or> e = ZeroDivisionError \<and> a = 0"
    if "future_loop m a l t c n cal = Some res" for res
    using that
  proof (induction rule: future_loop.raw_induct [rotated, consumes 1, case_names step])
    case (step loop m a l t c n cal res)
    show ?case
    proof (intro allI impI)
      fix e assume res: "res = Inl e"
      show "e = OverflowError \<or> e = ZeroDivisionError \<and> a = 0"
      proof (cases "loop_bound m a")
        case (Inl e')
        then show ?thesis using step.hyps res loop_bound_error [OF Inl] by simp
      next
        case (Inr q)
        show ?thesis
        proof (cases "int_less_float n q")
          case True
          show ?thesis
          proof (cases "future_pass l t a c")
            case (Inl e')
            then show ?thesis
              using step.hyps res Inr True future_pass_error [OF Inl] by simp
          next
            case (Inr p)
            then obtain evs c' where "p = (evs, c')" by (cases p)
            then have "loop m a l t c' (n + 1) (cal @ evs) = Some (Inl e)"
              using step.hyps res \<open>loop_bound m a = Inr q\<close> True Inr by simp
            then show ?thesis using step.IH by blast
          qed
        next
          case False
          then show ?thesis using step.hyps res Inr by simp
        qed
      qed
    qed
  qed
  then show ?thesis using assms by blast
qed

text \<open>The loop ends when the bound is finite and the dates stay in range.\<close>

lemma future_loop_in_range:
  assumes "loop_bound m a = Inr q" "q \<noteq> PosInf"
    and "\<forall>k < passes q - n. pass_in_range l a (c + int k * py_int a)"
  shows "\<exists>cal'. future_loop m a l t c n cal = Some (Inr cal')"
  using assms(3)
proof (induction "passes q - n" arbitrary: n c cal)
  case 0
  have "\<not> int_less_float n q"
  proof
    assume "int_less_float n q"
    then have "passes q - n = Suc (passes q - (n + 1))"
      using assms(2) by (rule int_less_float_passes)
    then show False using "0.hyps" by simp
  qed
  then show ?case
    using assms(1) by (subst future_loop.simps) simp
next
  case (Suc j)
  have lt: "int_less_float n q"
  proof (rule ccontr)
    assume "\<not> int_less_float n q"
    then have "passes q - n = 0" by (simp add: not_int_less_float_passes)
    then show False using Suc.hyps(2) by simp
  qed
  have "pass_in_range l a (c + int 0 * py_int a)"
  proof -
    have "0 < passes q - n" using Suc.hyps(2) by simp
    then show ?thesis using Suc.prems by blast
  qed
  then obtain evs where p: "future_pass l t a c = Inr (evs, c + py_int a)"
    using future_pass_in_range [of l a c t] by auto
  have j: "j = passes q - (n + 1)"
    using Suc.hyps(2) by simp
  have "\<forall>k < passes q - (n + 1). pass_in_range l a (c + py_int a + int k * py_int a)"
  proof (intro allI impI)
    fix k assume "k < passes q - (n + 1)"
    then have "Suc k < passes q - n" by simp
    then have "pass_in_range l a (c + int (Suc k) * py_int a)"
      using Suc.prems by blast
    then show "pass_in_range l a (c + py_int a + int k * py_int a)"
      by (simp add: algebra_simps)
  qed
  then obtain cal' where
    "future_loop m a l t (c + py_int a) (n + 1) (cal @ evs) = Some (Inr cal')"
    using Suc.hyps(1) [OF j] by blast
  then show ?case
    using assms(1) lt p by (subst future_loop.simps) simp
qed

lemma max_period_start_nonempty: "cs \<noteq> [] \<Longrightarrow> \<exists>l. max_period_start cs = Inr l"
  by (cases cs) simp_all

lemma max_period_start_Inr: "max_period_start cs = Inr l \<Longrightarrow> cs \<noteq> []"
  by (cases cs) simp_all

lemma int_true_div_error: "b \<noteq> 0 \<Longrightarrow> int_true_div a b = Inl e \<Longrightarrow> e = OverflowError"
  by (auto simp: int_true_div_def Let_def split: if_splits)

lemma avg_cycle_length_error:
  "cs \<noteq> [] \<Longrightarrow> avg_cycle_length cs = Inl e \<Longrightarrow> e = OverflowError"
  using int_true_div_error [of "int (length cs)" "sum_list (map cycle_length cs)" e]
  by (simp add: avg_cycle_length_def)

lemma avg_cycle_length_Inr:
  "avg_cycle_length cs = Inr a \<Longrightarrow> cs \<noteq> [] \<Longrightarrow>
   a = round_double (of_int (sum_list (map cycle_length cs)) / of_nat (length cs))"
  by (auto simp: avg_cycle_length_def int_true_div_def Let_def split: if_splits)

lemma avg_cycle_length_zero_sum:
  "cs \<noteq> [] \<Longrightarrow> sum_list (map cycle_length cs) = 0 \<Longrightarrow> avg_cycle_length cs = Inr 0"
  by (simp add: avg_cycle_length_def int_true_div_def double_max_def)

text \<open>What a returned calendar holds.\<close>

lemma generate_ical_calendar_returns:
  assumes "generate_ical_calendar cs m t = Some (Inr cal)" "cs \<noteq> []"
  shows "\<exists>a l q. avg_cycle_length cs = Inr a \<and> max_period_start cs = Inr l
           \<and> loop_bound m a = Inr q \<and> q \<noteq> PosInf
           \<and> predicted_periods cal
             = map (\<lambda>k. predicted_event l (next_period_date l + int k * py_int a))
                 [0..<passes q]"
proof -
  obtain cal0 where h: "historical_loop cs [] = Inr cal0"
    using assms by (cases "historical_loop cs []") (simp_all add: generate_ical_calendar_def)
  obtain a where a: "avg_cycle_length cs = Inr a"
    using assms h by (cases "avg_cycle_length cs") (simp_all add: generate_ical_calendar_def)
  obtain l where l: "max_period_start cs = Inr l"
    using assms(2) max_period_start_nonempty by blast
  have "future_loop m a l t (next_period_date l) 0 cal0 = Some (Inr cal)"
    using assms h a l by (simp add: generate_ical_calendar_def)
  then obtain q where "loop_bound m a = Inr q" "q \<noteq> PosInf"
    "predicted_periods cal
       = predicted_periods cal0
         @ map (\<lambda>k. predicted_event l (next_period_date l + int k * py_int a)) [0..<passes q - 0]"
    using future_loop_returns by blast
  moreover have "predicted_periods cal0 = []"
    using historical_loop_predicted [OF h] by simp
  ultimately show ?thesis
    using a l by simp
qed

text \<open>The exceptions of the call.\<close>

lemma generate_ical_calendar_error:
  assumes "generate_ical_calendar cs m t = Some (Inl e)"
  shows "e = OverflowError \<or> e = ZeroDivisionError \<and> cs \<noteq> [] \<and> avg_cycle_length cs = Inr 0"
proof (cases "historical_loop cs []")
  case (Inl e')
  then show ?thesis
    using assms historical_loop_error [OF Inl] by (simp add: generate_ical_calendar_def)
next
  case (Inr cal0)
  then have ne: "cs \<noteq> []"
    using assms by (auto simp: generate_ical_calendar_def)
  show ?thesis
  proof (cases "avg_cycle_length cs")
    case (Inl e')
    then show ?thesis
      using assms Inr ne avg_cycle_length_error [OF ne Inl]
      by (simp add: generate_ical_calendar_def)
  next
    case a: (Inr a)
    obtain l where l: "max_period_start cs = Inr l"
      using ne max_period_start_nonempty by blast
    have "future_loop m a l t (next_period_date l) 0 cal0 = Some (Inl e)"
      using assms Inr ne a l by (simp add: generate_ical_calendar_def)
    then have "e = OverflowError \<or> e = ZeroDivisionError \<and> a = 0"
      by (rule future_loop_error)
    then show ?thesis using ne a by auto
  qed
qed

lemma generate_ical_calendar_zero:
  assumes "cs \<noteq> []" "avg_cycle_length cs = Inr 0" "historical_loop cs [] = Inr cal0"
    "float_of_int (m * 30) = Inr fm"
  shows "generate_ical_calendar cs m t = Some (Inl ZeroDivisionError)"
proof -
  obtain l where l: "max_period_start cs = Inr l"
    using assms(1) max_period_start_nonempty by blast
  have "future_loop m 0 l t (next_period_date l) 0 cal0 = Some (Inl ZeroDivisionError)"
    using loop_bound_zero [OF assms(4)] by (subst future_loop.simps) simp
  then show ?thesis
    using assms l by (simp add: generate_ical_calendar_def)
qed

text \<open>The call returns when the bound is finite and the dates stay in range.\<close>

lemma generate_ical_calendar_in_range:
  assumes "avg_cycle_length cs = Inr a" "max_period_start cs = Inr l"
    "loop_bound m a = Inr q" "q \<noteq> PosInf"
    "\<forall>c \<in> set cs. historical_in_range c"
    "\<forall>k < passes q. pass_in_range l a (next_period_date l + int k * py_int a)"
  shows "\<exists>cal. generate_ical_calendar cs m t = Some (Inr cal)"
proof -
  have ne: "cs \<noteq> []" using assms(2) by (rule max_period_start_Inr)
  obtain cal0 where h: "historical_loop cs [] = Inr cal0"
    using historical_loop_in_range [OF assms(5)] by blast
  have "\<forall>k < passes q - 0. pass_in_range l a (next_period_date l + int k * py_int a)"
    using assms(6) by simp
  then obtain cal where "future_loop m a l t (next_period_date l) 0 cal0 = Some (Inr cal)"
    using future_loop_in_range [OF assms(3,4)] by blast
  then show ?thesis
    using h ne assms(1,2) by (simp add: generate_ical_calendar_def)
qed

lemma pass_in_range_forward:
  assumes "0 \<le> py_int a" "15 \<le> d"
    "d + int n * py_int a + int (period_duration l) + 1 \<le> date_max" "k < n"
  shows "pass_in_range l a (d + int k * py_int a)"
proof -
  define x where "x = int k * py_int a"
  define y where "y = int n * py_int a"
  have k: "int k + 1 \<le> int n" using assms(4) by simp
  have "(int k + 1) * py_int a \<le> int n * py_int a"
    using k assms(1) by (rule mult_right_mono)
  then have s: "x + py_int a \<le> y"
    by (simp add: algebra_simps x_def y_def)
  have x0: "0 \<le> x" using assms(1) by (simp add: x_def)
  have y: "d + y + int (period_duration l) + 1 \<le> date_max"
    using assms(3) by (simp add: y_def)
  have "py_int a \<le> 3652059"
    using s x0 y assms(2) by (simp add: date_max_def)
  then have "\<bar>py_int a\<bar> \<le> 999999999"
    using assms(1) by simp
  moreover have "15 \<le> d + x" using assms(2) x0 by simp
  moreover have "d + x + int (period_duration l) + 1 \<le> date_max" using s y assms(1) by simp
  moreover have "date_min \<le> d + x + py_int a" using assms(1,2) x0 by (simp add: date_min_def)
  moreover have "d + x + py_int a \<le> date_max" using s y by simp
  ultimately show ?thesis
    unfolding pass_in_range_def x_def by blast
qed




lemma sum_cycle_lengths_ge:
  "\<forall>c \<in> set cs. 3 \<le> cycle_length c \<Longrightarrow> 3 * int (length cs) \<le> sum_list (map cycle_length cs)"
  by (induction cs) auto

lemma avg_cycle_length_pos:
  assumes "\<forall>c \<in> set cs. 3 \<le> cycle_length c" "cs \<noteq> []" "avg_cycle_length cs = Inr a"
  shows "0 < a"
proof -
  have "of_int (3 * int (length cs)) \<le> (of_int (sum_list (map cycle_length cs)) :: rat)"
    using sum_cycle_lengths_ge [OF assms(1)] by (simp only: of_int_le_iff)
  then have "3 * of_nat (length cs) \<le> (of_int (sum_list (map cycle_length cs)) :: rat)"
    by simp
  moreover have "(0 :: rat) < of_nat (length cs)"
    using assms(2) by simp
  ultimately have "(3 :: rat) \<le> of_int (sum_list (map cycle_length cs)) / of_nat (length cs)"
    by (simp add: le_divide_eq)
  then have "0 < round_double (of_int (sum_list (map cycle_length cs)) / of_nat (length cs))"
    by (intro round_double_pos) simp
  then show ?thesis
    using avg_cycle_length_Inr [OF assms(3,2)] by simp
qed

lemma passes_28: "passes (Float (4825285315039817 / 4503599627370496)) = 2"
proof -
  have "\<lceil>4825285315039817 / 4503599627370496 :: rat\<rceil> = 2"
    by (simp add: ceiling_eq_iff)
  then show ?thesis by simp
qed

lemma avg_single_28: "cycle_length c = 28 \<Longrightarrow> avg_cycle_length [c] = Inr 28"
  by (simp add: avg_cycle_length_def int_true_div_28)

text \<open>One cycle of 28 days, one month.\<close>

lemma single_cycle_forecast:
  assumes "cycle_length c = 28" "generate_ical_calendar [c] 1 t = Some (Inr cal)"
  shows "predicted_periods cal
     = [predicted_event c (next_period_date c), predicted_event c (next_period_date c + 28)]"
proof -
  obtain a l q where r: "avg_cycle_length [c] = Inr a" "max_period_start [c] = Inr l"
    "loop_bound 1 a = Inr q"
    "predicted_periods cal
       = map (\<lambda>k. predicted_event l (next_period_date l + int k * py_int a)) [0..<passes q]"
    using generate_ical_calendar_returns [OF assms(2)] by auto
  have a: "a = 28" using r(1) avg_single_28 [OF assms(1)] by simp
  have l: "l = c" using r(2) by simp
  have q: "q = Float (4825285315039817 / 4503599627370496)"
    using r(3) loop_bound_28 by (simp add: a)
  have "py_int (28 :: rat) = 28"
    using py_int_of_int [of 28] by simp
  moreover have "predicted_periods cal
       = map (\<lambda>k. predicted_event c (next_period_date c + int k * py_int 28)) [0, 1]"
    using r(4) by (simp only: a l q passes_28 upt_2)
  ultimately show ?thesis
    by simp
qed

lemma single_cycle_returns:
  assumes "cycle_length c = 28" "historical_in_range c" "15 \<le> next_period_date c"
    "next_period_date c + 56 + int (period_duration c) + 1 \<le> date_max"
  shows "\<exists>cal. generate_ical_calendar [c] 1 t = Some (Inr cal)"
proof -
  have p: "py_int (28 :: rat) = 28"
    using py_int_of_int [of 28] by simp
  have "\<forall>k < passes (Float (4825285315039817 / 4503599627370496)).
          pass_in_range c 28 (next_period_date c + int k * py_int 28)"
  proof (intro allI impI)
    fix k assume "k < passes (Float (4825285315039817 / 4503599627370496))"
    then have "k < 2" by (simp only: passes_28)
    then show "pass_in_range c 28 (next_period_date c + int k * py_int 28)"
      using assms(3,4) by (intro pass_in_range_forward [where n = 2]) (simp_all add: p)
  qed
  then show ?thesis
    using assms(2)
    by (intro generate_ical_calendar_in_range [OF avg_single_28 [OF assms(1)] _ loop_bound_28])
      simp_all
qed

text \<open>The scenario.\<close>

lemma scenario_in_range:
  "cycle_length (hd scenario_phases) = 28"
  "historical_in_range (hd scenario_phases)"
  "15 \<le> next_period_date (hd scenario_phases)"
  "next_period_date (hd scenario_phases) + 56 + int (period_duration (hd scenario_phases)) + 1
     \<le> date_max"
  by (simp_all add: scenario_phases_eq historical_in_range_def date_min_def date_max_def)

lemma scenario_single: "scenario_phases = [hd scenario_phases]"
  by (simp add: scenario_phases_eq)

lemma scenario_forecast:
  "forecast (generate_ical_calendar scenario_phases 1 739000)
     = [predicted_event (hd scenario_phases) 738914, predicted_event (hd scenario_phases) 738942]"
proof -
  obtain cal where c: "generate_ical_calendar [hd scenario_phases] 1 739000 = Some (Inr cal)"
    using single_cycle_returns [OF scenario_in_range] by blast
  have "predicted_periods cal
     = [predicted_event (hd scenario_phases) (next_period_date (hd scenario_phases)),
        predicted_event (hd scenario_phases) (next_period_date (hd scenario_phases) + 28)]"
    using single_cycle_forecast [OF scenario_in_range(1) c] .
  moreover have "next_period_date (hd scenario_phases) = 738914"
    by (simp add: scenario_phases_eq)
  ultimately have "predicted_periods cal
     = [predicted_event (hd scenario_phases) 738914, predicted_event (hd scenario_phases) 738942]"
    by simp
  moreover have "generate_ical_calendar scenario_phases 1 739000 = Some (Inr cal)"
    using c scenario_single by simp
  ultimately show ?thesis
    by (simp add: forecast_def)
qed

text \<open>
  Claim C3. In the scenario the historical periods last 4 days, and each predicted period
  event ends (exclusively) 5 days after its start: \<^verbatim>\<open>period_end\<close> is the start plus the
  duration, and \<^verbatim>\<open>dtend\<close> is one day later again.
\<close>

theorem predicted_period_span_scenario:
  "map period_duration scenario_phases = [4]
   \<and> map duration scenario_periods = [4, 4]
   \<and> map (\<lambda>e. (dtstart e, dtend e)) (forecast (generate_ical_calendar scenario_phases 1 739000))
       = [(738914, Some 738919), (738942, Some 738947)]"
proof -
  have "period_duration (hd scenario_phases) = 4"
    by (simp add: scenario_phases_eq)
  then have "map (\<lambda>e. (dtstart e, dtend e))
        (forecast (generate_ical_calendar scenario_phases 1 739000))
       = [(738914, Some 738919), (738942, Some 738947)]"
    by (simp add: scenario_forecast predicted_event_def)
  moreover have "map period_duration scenario_phases = [4]"
    by (simp add: scenario_phases_eq)
  moreover have "map duration scenario_periods = [4, 4]"
    by (simp add: scenario_periods_def)
  ultimately show ?thesis
    by simp
qed

text \<open>Cycles of 29, 30 and 30 days.\<close>

lemma drift_calculate:
  "calculate_cycle_phases init drift_periods = Inr (drift_phases, init\<lparr>cycle_data := drift_phases\<rparr>)"
  by code_simp

lemma drift_lengths: "map cycle_length drift_phases = [29, 30, 30]"
  by code_simp

lemma drift_anchor:
  "map_sum id (\<lambda>l. (next_period_date l, period_duration l)) (max_period_start drift_phases)
     = Inr (738975, 4)"
  by code_simp

lemma drift_historical: "list_all historical_in_range drift_phases"
  by code_simp

lemma round_double_89_3: "round_double (89 / 3) = 8350424309082795 / 281474976710656"
  using round_double_eqI [of 4 "89 / 3" 8350424309082795] by simp

lemma drift_avg: "avg_cycle_length drift_phases = Inr (8350424309082795 / 281474976710656)"
proof -
  have "sum_list (map cycle_length drift_phases) = 89" "length drift_phases = 3"
  proof -
    show "sum_list (map cycle_length drift_phases) = 89"
      by (simp add: drift_lengths)
    have "length (map cycle_length drift_phases) = 3"
      by (simp add: drift_lengths)
    then show "length drift_phases = 3"
      by simp
  qed
  then show ?thesis
    by (simp add: avg_cycle_length_def int_true_div_def round_double_89_3 double_max_def)
qed

lemma drift_step: "py_int (8350424309082795 / 281474976710656) = 29"
  by (simp add: py_int_def floor_eq_iff)

lemma drift_round: "round (8350424309082795 / 281474976710656 :: rat) = 30"
  by (simp add: round_def floor_eq_iff)

lemma drift_bound:
  "loop_bound 1 (8350424309082795 / 281474976710656)
     = Inr (Float (4554201870374659 / 4503599627370496))"
proof -
  have "round_double (30 / (8350424309082795 / 281474976710656))
      = 4554201870374659 / 4503599627370496"
    using round_double_eqI [of 0 "30 / (8350424309082795 / 281474976710656)" 4554201870374659]
    by simp
  then show ?thesis
    by (simp add: loop_bound_def float_of_int_def float_div_def round_double_30 double_max_def)
qed

lemma drift_passes: "passes (Float (4554201870374659 / 4503599627370496)) = 2"
proof -
  have "\<lceil>4554201870374659 / 4503599627370496 :: rat\<rceil> = 2"
    by (simp add: ceiling_eq_iff)
  then show ?thesis by simp
qed

lemma drift_last:
  obtains l where "max_period_start drift_phases = Inr l" "next_period_date l = 738975"
    "period_duration l = 4"
proof (cases "max_period_start drift_phases")
  case (Inl e)
  then show ?thesis using drift_anchor by simp
next
  case (Inr l)
  then show ?thesis using drift_anchor that by simp
qed

lemma drift_returns:
  "\<exists>cal. generate_ical_calendar drift_phases 1 739000 = Some (Inr cal)"
proof -
  obtain l where l: "max_period_start drift_phases = Inr l" "next_period_date l = 738975"
    "period_duration l = 4"
    by (rule drift_last)
  have h: "\<forall>c \<in> set drift_phases. historical_in_range c"
    using drift_historical by (simp add: list_all_iff)
  have "\<forall>k < passes (Float (4554201870374659 / 4503599627370496)).
          pass_in_range l (8350424309082795 / 281474976710656)
            (next_period_date l + int k * py_int (8350424309082795 / 281474976710656))"
  proof (intro allI impI)
    fix k assume "k < passes (Float (4554201870374659 / 4503599627370496))"
    then have "k < 2" by (simp only: drift_passes)
    then show "pass_in_range l (8350424309082795 / 281474976710656)
            (next_period_date l + int k * py_int (8350424309082795 / 281474976710656))"
      by (intro pass_in_range_forward [where n = 2]) (simp_all add: drift_step l date_max_def)
  qed
  then show ?thesis
    using h by (intro generate_ical_calendar_in_range [OF drift_avg l(1) drift_bound]) simp_all
qed

lemma drift_forecast:
  "map dtstart (forecast (generate_ical_calendar drift_phases 1 739000)) = [738975, 739004]"
proof -
  obtain cal where c: "generate_ical_calendar drift_phases 1 739000 = Some (Inr cal)"
    using drift_returns by blast
  have ne: "drift_phases \<noteq> []"
    using drift_lengths by auto
  obtain a l q where r: "avg_cycle_length drift_phases = Inr a"
    "max_period_start drift_phases = Inr l" "loop_bound 1 a = Inr q"
    "predicted_periods cal
       = map (\<lambda>k. predicted_event l (next_period_date l + int k * py_int a)) [0..<passes q]"
    using generate_ical_calendar_returns [OF c ne] by auto
  have a: "a = 8350424309082795 / 281474976710656" using r(1) drift_avg by simp
  have q: "q = Float (4554201870374659 / 4503599627370496)"
    using r(3) drift_bound by (simp add: a)
  have l: "next_period_date l = 738975"
    using r(2) drift_anchor by simp
  have "predicted_periods cal
       = map (\<lambda>k. predicted_event l
                (next_period_date l + int k * py_int (8350424309082795 / 281474976710656)))
           [0, 1]"
    using r(4) by (simp only: a q drift_passes upt_2)
  then have "map dtstart (predicted_periods cal) = [738975, 739004]"
    by (simp add: drift_step l predicted_event_def)
  then show ?thesis
    using c by (simp add: forecast_def)
qed

text \<open>
  Claim C2, as the code has it. The average cycle length is the float nearest to the
  exact mean of all historical cycle lengths (within a relative error of \<open>2 ^ - 53\<close> when
  the mean is a day or more), and the predicted periods of a returned calendar start
  \<^verbatim>\<open>int(avg_cycle_length)\<close> days apart, the first on the next period date of the last cycle:
  each pass advances the anchor by the mean truncated towards zero (its floor when it is
  not negative), not rounded to nearest. The truncation is applied at the day increment
  only.
\<close>

theorem anchor_advances_by_truncated_average:
  "cycle_phases \<noteq> []
   \<and> generate_ical_calendar cycle_phases months_future today = Some (Inr cal) \<longrightarrow>
     (\<exists>a last_period.
        avg_cycle_length cycle_phases = Inr a
        \<and> max_period_start cycle_phases = Inr last_period
        \<and> a = round_double (of_int (sum_list (map cycle_length cycle_phases))
                              / of_nat (length cycle_phases))
        \<and> (1 \<le> \<bar>of_int (sum_list (map cycle_length cycle_phases))
                  / of_nat (length cycle_phases) :: rat\<bar> \<longrightarrow>
             \<bar>a - of_int (sum_list (map cycle_length cycle_phases))
                    / of_nat (length cycle_phases)\<bar>
             \<le> \<bar>of_int (sum_list (map cycle_length cycle_phases))
                    / of_nat (length cycle_phases)\<bar> / 2 ^ 53)
        \<and> map dtstart (predicted_periods cal)
            = map (\<lambda>k. next_period_date last_period + int k * py_int a)
                [0..<length (predicted_periods cal)]
        \<and> (0 \<le> a \<longrightarrow> py_int a = \<lfloor>a\<rfloor>))"
proof
  assume h: "cycle_phases \<noteq> []
    \<and> generate_ical_calendar cycle_phases months_future today = Some (Inr cal)"
  then obtain a l q where r: "avg_cycle_length cycle_phases = Inr a"
    "max_period_start cycle_phases = Inr l"
    "predicted_periods cal
       = map (\<lambda>k. predicted_event l (next_period_date l + int k * py_int a)) [0..<passes q]"
    using generate_ical_calendar_returns [of cycle_phases months_future today cal] by blast
  define mean :: rat
    where "mean = of_int (sum_list (map cycle_length cycle_phases)) / of_nat (length cycle_phases)"
  have a: "a = round_double mean"
    using avg_cycle_length_Inr [OF r(1)] h by (simp add: mean_def)
  have e: "1 \<le> \<bar>mean\<bar> \<longrightarrow> \<bar>a - mean\<bar> \<le> \<bar>mean\<bar> / 2 ^ 53"
    using round_double_error [of mean] by (simp add: a)
  have n: "length (predicted_periods cal) = passes q"
    using r(3) by simp
  have s: "map dtstart (predicted_periods cal)
            = map (\<lambda>k. next_period_date l + int k * py_int a)
                [0..<length (predicted_periods cal)]"
    unfolding n by (simp add: r(3) predicted_event_def comp_def)
  have f: "0 \<le> a \<longrightarrow> py_int a = \<lfloor>a\<rfloor>"
    by (simp add: py_int_def)
  show "\<exists>a last_period.
        avg_cycle_length cycle_phases = Inr a
        \<and> max_period_start cycle_phases = Inr last_period
        \<and> a = round_double (of_int (sum_list (map cycle_length cycle_phases))
                              / of_nat (length cycle_phases))
        \<and> (1 \<le> \<bar>of_int (sum_list (map cycle_length cycle_phases))
                  / of_nat (length cycle_phases) :: rat\<bar> \<longrightarrow>
             \<bar>a - of_int (sum_list (map cycle_length cycle_phases))
                    / of_nat (length cycle_phases)\<bar>
             \<le> \<bar>of_int (sum_list (map cycle_length cycle_phases))
                    / of_nat (length cycle_phases)\<bar> / 2 ^ 53)
        \<and> map dtstart (predicted_periods cal)
            = map (\<lambda>k. next_period_date last_period + int k * py_int a)
                [0..<length (predicted_periods cal)]
        \<and> (0 \<le> a \<longrightarrow> py_int a = \<lfloor>a\<rfloor>)"
    using r(1,2) a e s f unfolding mean_def
    by (intro exI [of _ a] exI [of _ l] conjI)
qed

theorem anchor_advances_by_truncated_average_witness:
  "drift_phases \<noteq> []
   \<and> (\<exists>cal. generate_ical_calendar drift_phases 1 739000 = Some (Inr cal)
         \<and> map dtstart (predicted_periods cal)
             = map (\<lambda>k. 738975 + int k * 29) [0..<length (predicted_periods cal)])
   \<and> avg_cycle_length drift_phases = Inr (8350424309082795 / 281474976710656)
   \<and> py_int (8350424309082795 / 281474976710656) = 29"
proof -
  have ne: "drift_phases \<noteq> []"
    using drift_lengths by auto
  obtain cal where c: "generate_ical_calendar drift_phases 1 739000 = Some (Inr cal)"
    using drift_returns by (elim exE)
  have h: "drift_phases \<noteq> [] \<and> generate_ical_calendar drift_phases 1 739000 = Some (Inr cal)"
    using ne c by (intro conjI)
  from anchor_advances_by_truncated_average [of drift_phases 1 739000 cal, THEN mp, OF h]
  obtain a l where r: "avg_cycle_length drift_phases = Inr a"
    "max_period_start drift_phases = Inr l"
    "map dtstart (predicted_periods cal)
       = map (\<lambda>k. next_period_date l + int k * py_int a) [0..<length (predicted_periods cal)]"
    by (elim exE conjE)
  have a: "a = 8350424309082795 / 281474976710656"
    using r(1) drift_avg by simp
  have l: "next_period_date l = 738975"
    using r(2) drift_anchor by simp
  have "map dtstart (predicted_periods cal)
      = map (\<lambda>k. 738975 + int k * 29) [0..<length (predicted_periods cal)]"
    using r(3) by (simp only: a l drift_step)
  then have "\<exists>cal. generate_ical_calendar drift_phases 1 739000 = Some (Inr cal)
         \<and> map dtstart (predicted_periods cal)
             = map (\<lambda>k. 738975 + int k * 29) [0..<length (predicted_periods cal)]"
    using c by (intro exI [of _ cal] conjI)
  then show ?thesis
    using ne drift_avg drift_step by (intro conjI)
qed

text \<open>
  Claim C2 as stated fails: with cycles of 29, 30 and 30 days the mean is the float
  29.666666666666668, which rounds to 30, and the second predicted period starts 29 days
  after the first.
\<close>

theorem anchor_round_counterexample:
  "avg_cycle_length drift_phases = Inr (8350424309082795 / 281474976710656)
   \<and> round (8350424309082795 / 281474976710656 :: rat) = 30
   \<and> map dtstart (forecast (generate_ical_calendar drift_phases 1 739000)) = [738975, 739004]
   \<and> (739004 :: int) \<noteq> 738975 + round (8350424309082795 / 281474976710656 :: rat)"
  using drift_avg drift_forecast by (simp add: drift_round)





text \<open>
  The ceiling is that of the float: for seven cycles of 150 days together and five months
  the quotient is the float 7.000000000000001 and the loop makes eight passes, where the
  quotient of the exact numbers is 7.
\<close>

lemma rounding_identify:
  "identify_periods (snd (parse_health_data init rounding_records)) = Inr rounding_periods"
  by (simp add: identify_periods_def parse_health_data_def rounding_records_def
      flow_record_def init_def close_period_def rounding_periods_def Let_def)

lemma rounding_calculate:
  "calculate_cycle_phases init rounding_periods
     = Inr (rounding_phases, init\<lparr>cycle_data := rounding_phases\<rparr>)"
  by code_simp

lemma rounding_lengths: "map cycle_length rounding_phases = [21, 21, 21, 21, 22, 22, 22]"
  by code_simp

lemma rounding_anchor:
  "map_sum id (\<lambda>l. (next_period_date l, period_duration l)) (max_period_start rounding_phases)
     = Inr (739036, 1)"
  by code_simp

lemma rounding_historical: "list_all historical_in_range rounding_phases"
  by code_simp

lemma rounding_avg: "avg_cycle_length rounding_phases = Inr (6031606643799771 / 281474976710656)"
proof -
  have "round_double (150 / 7) = 6031606643799771 / 281474976710656"
    using round_double_eqI [of 4 "150 / 7" 6031606643799771] by simp
  moreover have "sum_list (map cycle_length rounding_phases) = 150"
    by (simp add: rounding_lengths)
  moreover have "length (map cycle_length rounding_phases) = 7"
    by (simp add: rounding_lengths)
  then have "length rounding_phases = 7"
    by simp
  ultimately show ?thesis
    by (simp add: avg_cycle_length_def int_true_div_def double_max_def)
qed

lemma rounding_step: "py_int (6031606643799771 / 281474976710656) = 21"
  by (simp add: py_int_def floor_eq_iff)

lemma rounding_bound:
  "loop_bound 5 (6031606643799771 / 281474976710656)
     = Inr (Float (7881299347898369 / 1125899906842624))"
proof -
  have "round_double 150 = 150"
    using round_double_eqI [of 7 150 5277655813324800] by simp
  moreover have "round_double (150 / (6031606643799771 / 281474976710656))
      = 7881299347898369 / 1125899906842624"
    using round_double_eqI [of 2 "150 / (6031606643799771 / 281474976710656)" 7881299347898369]
    by simp
  ultimately show ?thesis
    by (simp add: loop_bound_def float_of_int_def float_div_def double_max_def)
qed

lemma rounding_passes: "passes (Float (7881299347898369 / 1125899906842624)) = 8"
proof -
  have "\<lceil>7881299347898369 / 1125899906842624 :: rat\<rceil> = 8"
    by (simp add: ceiling_eq_iff)
  then show ?thesis by simp
qed

lemma forecast_count_rounding_example:
  "length (forecast (generate_ical_calendar rounding_phases 5 739000)) = 8"
  "\<lceil>of_int (5 * 30) / (150 / 7 :: rat)\<rceil> = 7"
proof -
  obtain l where l: "max_period_start rounding_phases = Inr l" "next_period_date l = 739036"
    "period_duration l = 1"
    using rounding_anchor by (cases "max_period_start rounding_phases") simp_all
  have h: "\<forall>c \<in> set rounding_phases. historical_in_range c"
    using rounding_historical by (simp add: list_all_iff)
  have "\<forall>k < passes (Float (7881299347898369 / 1125899906842624)).
          pass_in_range l (6031606643799771 / 281474976710656)
            (next_period_date l + int k * py_int (6031606643799771 / 281474976710656))"
  proof (intro allI impI)
    fix k assume "k < passes (Float (7881299347898369 / 1125899906842624))"
    then have "k < 8" by (simp only: rounding_passes)
    then show "pass_in_range l (6031606643799771 / 281474976710656)
            (next_period_date l + int k * py_int (6031606643799771 / 281474976710656))"
      by (intro pass_in_range_forward [where n = 8]) (simp_all add: rounding_step l date_max_def)
  qed
  then obtain cal where c: "generate_ical_calendar rounding_phases 5 739000 = Some (Inr cal)"
    using h generate_ical_calendar_in_range [OF rounding_avg l(1) rounding_bound, of 739000]
    by auto
  have ne: "rounding_phases \<noteq> []"
    using rounding_lengths by auto
  obtain a l' q where r: "avg_cycle_length rounding_phases = Inr a"
    "loop_bound 5 a = Inr q"
    "predicted_periods cal
       = map (\<lambda>k. predicted_event l' (next_period_date l' + int k * py_int a)) [0..<passes q]"
    using generate_ical_calendar_returns [OF c ne] by auto
  have a: "a = 6031606643799771 / 281474976710656"
    using r(1) rounding_avg by (simp only: sum.inject)
  have "q = Float (7881299347898369 / 1125899906842624)"
    using r(2) rounding_bound unfolding a by (simp only: sum.inject)
  then have "length (predicted_periods cal) = 8"
    using r(3) by (simp only: rounding_passes length_map length_upt)
  then show "length (forecast (generate_ical_calendar rounding_phases 5 739000)) = 8"
    using c by (simp add: forecast_def)
  show "\<lceil>of_int (5 * 30) / (150 / 7 :: rat)\<rceil> = 7"
    by (simp add: ceiling_eq_iff)
qed

text \<open>
  Claim C9, as the code has it. The average is not guarded. The call raises
  \<^verbatim>\<open>ZeroDivisionError\<close> only for a non-empty cycle phase sequence whose average cycle
  length is zero, and it does raise it when the cycle lengths add up to zero, unless an
  \<^verbatim>\<open>OverflowError\<close> comes first (from the end date of a historical event or from the
  conversion of \<^verbatim>\<open>months_future * 30\<close> to a float). For the cycle phases of a Period
  Segmenter result, whose cycle lengths are at least 3, it never raises it.
\<close>

theorem zero_average_raises:
  "(generate_ical_calendar cycle_phases months_future today = Some (Inl ZeroDivisionError) \<longrightarrow>
      cycle_phases \<noteq> [] \<and> avg_cycle_length cycle_phases = Inr 0)
   \<and> (cycle_phases \<noteq> [] \<and> sum_list (map cycle_length cycle_phases) = 0
        \<and> (\<forall>c \<in> set cycle_phases. historical_in_range c)
        \<and> float_of_int (months_future * 30) = Inr fm \<longrightarrow>
        generate_ical_calendar cycle_phases months_future today = Some (Inl ZeroDivisionError))
   \<and> (identify_periods self = Inr ps \<and> calculate_cycle_phases self ps = Inr (cs, self') \<longrightarrow>
        generate_ical_calendar cs months_future today \<noteq> Some (Inl ZeroDivisionError))"
proof (intro conjI impI)
  assume "generate_ical_calendar cycle_phases months_future today = Some (Inl ZeroDivisionError)"
  then have "ZeroDivisionError = OverflowError
      \<or> ZeroDivisionError = ZeroDivisionError \<and> cycle_phases \<noteq> []
         \<and> avg_cycle_length cycle_phases = Inr 0"
    by (rule generate_ical_calendar_error)
  then show "cycle_phases \<noteq> []" and "avg_cycle_length cycle_phases = Inr 0"
    by simp_all
next
  assume h: "cycle_phases \<noteq> [] \<and> sum_list (map cycle_length cycle_phases) = 0
        \<and> (\<forall>c \<in> set cycle_phases. historical_in_range c)
        \<and> float_of_int (months_future * 30) = Inr fm"
  then obtain hist where hist: "historical_loop cycle_phases [] = Inr hist"
    using historical_loop_in_range [of cycle_phases "[]"] by auto
  have ne: "cycle_phases \<noteq> []" and fl: "float_of_int (months_future * 30) = Inr fm"
    using h by simp_all
  have z: "avg_cycle_length cycle_phases = Inr 0"
    using h by (intro avg_cycle_length_zero_sum) simp_all
  show "generate_ical_calendar cycle_phases months_future today
      = Some (Inl ZeroDivisionError)"
    using ne z hist fl by (rule generate_ical_calendar_zero)
next
  assume h: "identify_periods self = Inr ps \<and> calculate_cycle_phases self ps = Inr (cs, self')"
  show "generate_ical_calendar cs months_future today \<noteq> Some (Inl ZeroDivisionError)"
  proof
    assume "generate_ical_calendar cs months_future today = Some (Inl ZeroDivisionError)"
    then have "ZeroDivisionError = OverflowError
        \<or> ZeroDivisionError = ZeroDivisionError \<and> cs \<noteq> [] \<and> avg_cycle_length cs = Inr 0"
      by (rule generate_ical_calendar_error)
    then have z: "cs \<noteq> []" "avg_cycle_length cs = Inr 0"
      by simp_all
    have "\<forall>c \<in> set cs. 3 \<le> cycle_length c"
      using h segmenter_cycle_lengths by blast
    then have "(0 :: rat) < 0"
      using z by (rule avg_cycle_length_pos)
    then show False by simp
  qed
qed

lemma stalled_phases_eq:
  "stalled_phases =
     [\<lparr>cycle_number = 1, period_start = 738886, period_end = 738889, period_duration = 4,
       cycle_length = 0, ovulation_date = 738872, fertile_window_start = 738867,
       fertile_window_end = 738873, pms_alert_date = 738879, next_period_date = 738886\<rparr>]"
  by code_simp

lemma round_double_180: "round_double 180 = 180"
  using round_double_eqI [of 7 180 6333186975989760] by simp

lemma float_of_int_180: "float_of_int (6 * 30) = Inr 180"
  by (simp add: float_of_int_def round_double_180 double_max_def)

theorem zero_average_raises_witness:
  "stalled_phases \<noteq> [] \<and> sum_list (map cycle_length stalled_phases) = 0
   \<and> historical_in_range (hd stalled_phases)
   \<and> float_of_int (6 * 30) = Inr 180
   \<and> generate_ical_calendar stalled_phases 6 739000 = Some (Inl ZeroDivisionError)
   \<and> avg_cycle_length stalled_phases = Inr 0
   \<and> identify_periods scenario = Inr scenario_periods
   \<and> calculate_cycle_phases scenario scenario_periods
       = Inr (scenario_phases, scenario\<lparr>cycle_data := scenario_phases\<rparr>)
   \<and> generate_ical_calendar scenario_phases 6 739000 \<noteq> Some (Inl ZeroDivisionError)"
proof -
  have ne: "stalled_phases \<noteq> []" and s: "sum_list (map cycle_length stalled_phases) = 0"
    and hr: "historical_in_range (hd stalled_phases)"
    by (simp_all add: stalled_phases_eq historical_in_range_def date_min_def date_max_def)
  have all: "\<forall>c \<in> set stalled_phases. historical_in_range c"
    using hr by (simp add: stalled_phases_eq)
  have h2: "stalled_phases \<noteq> [] \<and> sum_list (map cycle_length stalled_phases) = 0
        \<and> (\<forall>c \<in> set stalled_phases. historical_in_range c)
        \<and> float_of_int (6 * 30) = Inr 180"
    using ne s all float_of_int_180 by (intro conjI)
  note t = zero_average_raises [where months_future = 6 and today = 739000]
  have z: "generate_ical_calendar stalled_phases 6 739000 = Some (Inl ZeroDivisionError)"
    using t [where cycle_phases = stalled_phases and fm = 180, THEN conjunct2, THEN conjunct1,
        THEN mp, OF h2] .
  have a: "avg_cycle_length stalled_phases = Inr 0"
    using t [where cycle_phases = stalled_phases, THEN conjunct1, THEN mp, OF z]
    by (elim conjE)
  have h3: "identify_periods scenario = Inr scenario_periods
      \<and> calculate_cycle_phases scenario scenario_periods
          = Inr (scenario_phases, scenario\<lparr>cycle_data := scenario_phases\<rparr>)"
    using scenario_identify scenario_calculate' by (intro conjI)
  have n: "generate_ical_calendar scenario_phases 6 739000 \<noteq> Some (Inl ZeroDivisionError)"
    using t [where self = scenario and ps = scenario_periods and cs = scenario_phases,
        THEN conjunct2, THEN conjunct2, THEN mp, OF h3] .
  show ?thesis
    using ne s hr float_of_int_180 z a scenario_identify scenario_calculate' n
    by (intro conjI)
qed

text \<open>
  Claim C9 as stated fails: for two period records with the same start date the average
  cycle length is zero and the division is executed, raising \<^verbatim>\<open>ZeroDivisionError\<close>.
\<close>

theorem zero_average_counterexample:
  "stalled_phases \<noteq> [] \<and> avg_cycle_length stalled_phases = Inr 0
   \<and> generate_ical_calendar stalled_phases 6 739000 = Some (Inl ZeroDivisionError)"
proof -
  have ne: "stalled_phases \<noteq> []" and s: "sum_list (map cycle_length stalled_phases) = 0"
    by (simp_all add: stalled_phases_eq)
  have a: "avg_cycle_length stalled_phases = Inr 0"
    using ne s by (rule avg_cycle_length_zero_sum)
  have "\<forall>c \<in> set stalled_phases. historical_in_range c"
    by (simp add: stalled_phases_eq historical_in_range_def date_min_def date_max_def)
  then obtain hist where hist: "historical_loop stalled_phases [] = Inr hist"
    using historical_loop_in_range by blast
  have "generate_ical_calendar stalled_phases 6 739000 = Some (Inl ZeroDivisionError)"
    using ne a hist float_of_int_180 by (rule generate_ical_calendar_zero)
  then show ?thesis
    using ne a by (intro conjI)
qed

end
